theory Spec2Isabelle
  imports Complex_Main "HOL-Library.AList"
begin

section \<open>Python values\<close>

text \<open>
  The values that occur in a job's \<open>params\<close> dictionary (\<open>Dict[str, Any]\<close>): the
  JSON-like values, numpy arrays (input images) and opaque objects (stream handles and
  the like). A float is denoted by the real number it stands for (finite floats only).
  The number carried by \<open>PNdarray\<close> and \<open>PObject\<close> is the identity of the object. A
  \<open>PNdarray\<close> is an array with more than one element, as an image is. A dictionary is
  the list of its items in insertion order. The values are finite trees: a container
  that contains itself is not among them, and the recursion limit of the interpreter is
  not modelled.
\<close>

datatype pyval =
    PNone
  | PBool bool
  | PInt int
  | PFloat real
  | PStr string
  | PList "pyval list"
  | PDict "(pyval \<times> pyval) list"
  | PNdarray nat
  | PObject nat

text \<open>Exceptions, with the text that \<open>str(e)\<close> gives.\<close>

datatype py_error =
    TypeError string
  | ValueError string
  | IndexError string
  | OverflowError string
  | IOError string

fun str_exc :: "py_error \<Rightarrow> string" where
  "str_exc (TypeError m) = m"
| "str_exc (ValueError m) = m"
| "str_exc (IndexError m) = m"
| "str_exc (OverflowError m) = m"
| "str_exc (IOError m) = m"

text \<open>\<open>isinstance(v, str)\<close> and \<open>isinstance(v, np.ndarray)\<close>.\<close>

fun is_str :: "pyval \<Rightarrow> bool" where
  "is_str (PStr s) = True"
| "is_str v = False"

fun is_ndarray :: "pyval \<Rightarrow> bool" where
  "is_ndarray (PNdarray a) = True"
| "is_ndarray v = False"

text \<open>
  The truth value of an object, as \<open>if v:\<close> and \<open>a and b\<close> test it. For an array with more
  than one element numpy raises ValueError.
\<close>

fun py_truth :: "pyval \<Rightarrow> py_error + bool" where
  "py_truth PNone = Inr False"
| "py_truth (PBool b) = Inr b"
| "py_truth (PInt i) = Inr (i \<noteq> 0)"
| "py_truth (PFloat r) = Inr (r \<noteq> 0)"
| "py_truth (PStr s) = Inr (s \<noteq> [])"
| "py_truth (PList xs) = Inr (xs \<noteq> [])"
| "py_truth (PDict kvs) = Inr (kvs \<noteq> [])"
| "py_truth (PNdarray a) =
     Inl (ValueError ''The truth value of an array with more than one element is ambiguous. Use a.any() or a.all()'')"
| "py_truth (PObject a) = Inr True"

text \<open>Lists, dictionaries and numpy arrays cannot be dictionary keys.\<close>

fun py_hashable :: "pyval \<Rightarrow> bool" where
  "py_hashable (PList xs) = False"
| "py_hashable (PDict kvs) = False"
| "py_hashable (PNdarray a) = False"
| "py_hashable v = True"

text \<open>The name of the type of a value, in quotes, as error messages show it.\<close>

definition quoted :: "string \<Rightarrow> string" where
  "quoted s = CHR 0x27 # s @ [CHR 0x27]"

fun type_name :: "pyval \<Rightarrow> string" where
  "type_name PNone = ''NoneType''"
| "type_name (PBool b) = ''bool''"
| "type_name (PInt i) = ''int''"
| "type_name (PFloat r) = ''float''"
| "type_name (PStr s) = ''str''"
| "type_name (PList xs) = ''list''"
| "type_name (PDict kvs) = ''dict''"
| "type_name (PNdarray a) = ''numpy.ndarray''"
| "type_name (PObject a) = ''object''"

text \<open>The number a \<open>bool\<close>, \<open>int\<close> or \<open>float\<close> stands for; comparison across them is exact.\<close>

fun py_num :: "pyval \<Rightarrow> real option" where
  "py_num (PBool b) = Some (if b then 1 else 0)"
| "py_num (PInt i) = Some (of_int i)"
| "py_num (PFloat r) = Some r"
| "py_num v = None"

text \<open>
  Equality of two hashable values, as a dictionary compares keys: numbers by value
  (\<open>1\<close>, \<open>1.0\<close> and \<open>True\<close> are one key), everything else by type and content.
\<close>

definition py_key_eq :: "pyval \<Rightarrow> pyval \<Rightarrow> bool" where
  "py_key_eq a b =
     (case (py_num a, py_num b) of
        (Some x, Some y) \<Rightarrow> x = y
      | _ \<Rightarrow> a = b)"

text \<open>
  \<open>a == b\<close> followed by the test of its truth value, as \<open>list.index\<close> and the comparison of
  containers do it (\<open>PyObject_RichCompareBool\<close>): the same object is equal to itself
  without any call of \<open>__eq__\<close>; a comparison with a numpy array gives an array, whose
  truth value raises. Lists compare by length and then item by item; dictionaries by
  size and then, for each item of the left one, by the value the right one has at that
  key. The first argument of \<open>items_eq\<close> and \<open>find_eq\<close> is the right dictionary.
\<close>

function (sequential) py_eq :: "pyval \<Rightarrow> pyval \<Rightarrow> py_error + bool"
  and list_eq :: "pyval list \<Rightarrow> pyval list \<Rightarrow> py_error + bool"
  and items_eq :: "(pyval \<times> pyval) list \<Rightarrow> (pyval \<times> pyval) list \<Rightarrow> py_error + bool"
  and find_eq :: "(pyval \<times> pyval) list \<Rightarrow> pyval \<Rightarrow> pyval \<Rightarrow> py_error + bool"
where
  "py_eq (PNdarray a) w =
     (if w = PNdarray a then Inr True
      else Inl (ValueError ''The truth value of an array with more than one element is ambiguous. Use a.any() or a.all()''))"
| "py_eq (PList xs) (PList ys) =
     (if length xs \<noteq> length ys then Inr False else list_eq xs ys)"
| "py_eq (PDict kvs) (PDict lws) =
     (if length kvs \<noteq> length lws then Inr False else items_eq lws kvs)"
| "py_eq v (PNdarray a) =
     Inl (ValueError ''The truth value of an array with more than one element is ambiguous. Use a.any() or a.all()'')"
| "py_eq v w = Inr (py_key_eq v w)"
| "list_eq [] ys = Inr True"
| "list_eq (x # xs) [] = Inr False"
| "list_eq (x # xs) (y # ys) =
     (case py_eq x y of
        Inl e \<Rightarrow> Inl e
      | Inr b \<Rightarrow> if b then list_eq xs ys else Inr False)"
| "items_eq lws [] = Inr True"
| "items_eq lws ((k, v) # kvs) =
     (case find_eq lws k v of
        Inl e \<Rightarrow> Inl e
      | Inr b \<Rightarrow> if b then items_eq lws kvs else Inr False)"
| "find_eq [] k v = Inr False"
| "find_eq ((k', v') # lws) k v =
     (if py_key_eq k' k then py_eq v' v else find_eq lws k v)"
  by pat_completeness auto

termination
  by (relation "measure (case_sum
        (case_sum (\<lambda>(v, w). size v + size w)
                  (\<lambda>(xs, ys). size_list size xs + size_list size ys))
        (case_sum (\<lambda>(lws, kvs). size_list (size_prod size size) lws
                                 + size_list (size_prod size size) kvs)
                  (\<lambda>(lws, k, v). size_list (size_prod size size) lws + size k + size v)))")
     auto

text \<open>\<open>xs.index(v)\<close>: the first position whose item equals \<open>v\<close>, ValueError when none does.\<close>

fun py_index :: "pyval list \<Rightarrow> pyval \<Rightarrow> py_error + nat" where
  "py_index [] v = Inl (ValueError ''value is not in list'')"
| "py_index (x # xs) v =
     (case py_eq x v of
        Inl e \<Rightarrow> Inl e
      | Inr b \<Rightarrow>
          if b then Inr 0
          else (case py_index xs v of Inl e \<Rightarrow> Inl e | Inr i \<Rightarrow> Inr (Suc i)))"

text \<open>
  \<open>float(v)\<close>. An integer becomes the nearest float (ties to even, 53 bits), OverflowError
  from \<open>2 ^ 1024\<close> on. What \<open>float\<close> makes of a string is the parameter \<open>s2f\<close>: the float
  that the text denotes, \<open>None\<close> where \<open>float\<close> raises ValueError (a text that denotes an
  infinity or a NaN has no value here). The texts of the exceptions follow CPython 3.10.
\<close>

fun bit_length :: "nat \<Rightarrow> nat" where
  "bit_length n = (if n = 0 then 0 else Suc (bit_length (n div 2)))"

declare bit_length.simps [simp del]

definition float_of_int :: "int \<Rightarrow> py_error + real" where
  "float_of_int i =
     (let a = nat \<bar>i\<bar>; n = bit_length a in
      if n \<le> 53 then Inr (of_int i)
      else
        let sh = n - 53; q = a div 2 ^ sh; r = a mod 2 ^ sh; h = 2 ^ (sh - 1);
            q' = (if h < r \<or> (r = h \<and> odd q) then q + 1 else q);
            m = q' * 2 ^ sh
        in if 2 ^ 1024 \<le> m then Inl (OverflowError ''int too large to convert to float'')
           else Inr (if i < 0 then - of_nat m else of_nat m))"

fun py_float :: "(string \<Rightarrow> real option) \<Rightarrow> pyval \<Rightarrow> py_error + real" where
  "py_float s2f (PFloat r) = Inr r"
| "py_float s2f (PBool b) = Inr (if b then 1 else 0)"
| "py_float s2f (PInt i) = float_of_int i"
| "py_float s2f (PStr s) =
     (case s2f s of
        Some r \<Rightarrow> Inr r
      | None \<Rightarrow> Inl (ValueError (''could not convert string to float: '' @ quoted s)))"
| "py_float s2f (PNdarray a) =
     Inl (TypeError ''only length-1 arrays can be converted to Python scalars'')"
| "py_float s2f v =
     Inl (TypeError (''float() argument must be a string or a real number, not '' @ quoted (type_name v)))"

text \<open>
  Whether \<open>json.dumps\<close> accepts a value; it raises TypeError otherwise. The keys of a
  dictionary must be \<open>str\<close>, \<open>int\<close>, \<open>float\<close>, \<open>bool\<close> or \<open>None\<close>. (Its ValueError is
  for a container that contains itself, which no value here is.)
\<close>

fun json_key :: "pyval \<Rightarrow> bool" where
  "json_key PNone = True"
| "json_key (PBool b) = True"
| "json_key (PInt i) = True"
| "json_key (PFloat r) = True"
| "json_key (PStr s) = True"
| "json_key v = False"

fun json_serializable :: "pyval \<Rightarrow> bool"
  and json_list :: "pyval list \<Rightarrow> bool"
  and json_items :: "(pyval \<times> pyval) list \<Rightarrow> bool"
where
  "json_serializable (PList xs) = json_list xs"
| "json_serializable (PDict kvs) = json_items kvs"
| "json_serializable (PNdarray a) = False"
| "json_serializable (PObject a) = False"
| "json_serializable v = True"
| "json_list [] = True"
| "json_list (x # xs) = (json_serializable x \<and> json_list xs)"
| "json_items [] = True"
| "json_items ((k, v) # kvs) = (json_key k \<and> json_serializable v \<and> json_items kvs)"

text \<open>
  A dictionary with keys of any hashable type: \<open>d.get(k)\<close> and \<open>d[k] = v\<close>. Assignment to a
  key that is present keeps the place of the item; a new key goes to the end; a key that
  is not hashable raises TypeError.
\<close>

fun dict_get :: "(pyval \<times> pyval) list \<Rightarrow> pyval \<Rightarrow> pyval option" where
  "dict_get [] k = None"
| "dict_get ((k', v') # d) k = (if py_key_eq k' k then Some v' else dict_get d k)"

fun dict_put :: "(pyval \<times> pyval) list \<Rightarrow> pyval \<Rightarrow> pyval \<Rightarrow> (pyval \<times> pyval) list" where
  "dict_put [] k v = [(k, v)]"
| "dict_put ((k', v') # d) k v =
     (if py_key_eq k' k then (k', v) # d else (k', v') # dict_put d k v)"

definition dict_setitem ::
  "(pyval \<times> pyval) list \<Rightarrow> pyval \<Rightarrow> pyval \<Rightarrow> py_error + (pyval \<times> pyval) list" where
  "dict_setitem d k v =
     (if py_hashable k then Inr (dict_put d k v)
      else Inl (TypeError (''unhashable type: '' @ quoted (type_name k))))"

section \<open>Jobs\<close>

datatype JobStatus = PENDING | RUNNING | COMPLETED | FAILED | CANCELLED

fun status_value :: "JobStatus \<Rightarrow> string" where
  "status_value PENDING = ''pending''"
| "status_value RUNNING = ''running''"
| "status_value COMPLETED = ''completed''"
| "status_value FAILED = ''failed''"
| "status_value CANCELLED = ''cancelled''"

text \<open>
  Modelled from the spec: \<open>AsyncStream\<close> of \<open>diffusers_helper.thread_utils\<close> is not among
  the sources. The spec describes it as a channel pair: an input side, into which the
  queue pushes control signals for the running routine, and an output side, from which
  the worker loop reads the routine's events. The input side is the list of the signals
  pushed so far, oldest first. What a read of the output side gives is an input of the
  worker loop's steps (\<open>stream_read\<close> below).
\<close>

record AsyncStream =
  input_queue :: "pyval list"

definition push :: "pyval \<Rightarrow> AsyncStream \<Rightarrow> AsyncStream" where
  "push item s = s\<lparr>input_queue := input_queue s @ [item]\<rparr>"

text \<open>
  The thumbnail is the text \<open>data:image/png;base64,...\<close> of a PNG picture made by PIL. It
  is denoted by the picture: the scaled-down copy of an array, or a square of
  \<open>100 \<times> 100\<close> pixels in one colour.
\<close>

datatype png = Scaled nat | Square "nat \<times> nat \<times> nat"

record Job =
  job_id :: string
  params :: "(string \<times> pyval) list"
  status :: JobStatus
  created_at :: real
  started_at :: "real option"
  completed_at :: "real option"
  error :: "string option"
  result :: pyval
  progress_data :: pyval
  queue_position :: "int option"
  stream :: AsyncStream
  input_image :: pyval
  latent_type :: pyval
  thumbnail :: "png option"
  generation_type :: pyval

text \<open>\<open>d.get(k, default)\<close> and \<open>k in d and d[k] is not None\<close> on a dictionary with string keys.\<close>

definition params_get :: "(string \<times> pyval) list \<Rightarrow> string \<Rightarrow> pyval \<Rightarrow> pyval" where
  "params_get d k dflt = (case map_of d k of Some v \<Rightarrow> v | None \<Rightarrow> dflt)"

definition present_not_None :: "(string \<times> pyval) list \<Rightarrow> string \<Rightarrow> bool" where
  "present_not_None d k = (case map_of d k of Some v \<Rightarrow> v \<noteq> PNone | None \<Rightarrow> False)"

definition color_map :: "(string \<times> nat \<times> nat \<times> nat) list" where
  "color_map =
     [(''Black'', (0, 0, 0)),
      (''White'', (255, 255, 255)),
      (''Noise'', (128, 128, 128)),
      (''Green Screen'', (0, 177, 64))]"

text \<open>
  \<open>color_map.get(latent_type, (0, 0, 0))\<close>: the keys are strings, so any other hashable
  value gets the default; a value that is not hashable raises TypeError.
\<close>

definition color_map_get :: "pyval \<Rightarrow> py_error + nat \<times> nat \<times> nat" where
  "color_map_get v =
     (if \<not> py_hashable v then Inl (TypeError (''unhashable type: '' @ quoted (type_name v)))
      else case v of
             PStr s \<Rightarrow> (case map_of color_map s of Some c \<Rightarrow> Inr c | None \<Rightarrow> Inr (0, 0, 0))
           | _ \<Rightarrow> Inr (0, 0, 0))"

text \<open>
  \<open>Job.__post_init__\<close>. \<open>Image.fromarray\<close> of PIL raises TypeError for an array whose shape
  or element type it cannot handle: \<open>fromarray_ok a\<close> says that it accepts the array \<open>a\<close>.
\<close>

definition post_init :: "(nat \<Rightarrow> bool) \<Rightarrow> Job \<Rightarrow> py_error + Job" where
  "post_init fromarray_ok self0 =
     (let self = self0\<lparr>generation_type := params_get (params self0) ''model_type'' (PStr ''Original'')\<rparr>
      in
      if present_not_None (params self) ''input_image'' then
        (let self = self\<lparr>input_image := params_get (params self) ''input_image'' PNone\<rparr> in
         case input_image self of
           PNdarray a \<Rightarrow>
             if fromarray_ok a then Inr (self\<lparr>thumbnail := Some (Scaled a)\<rparr>)
             else Inl (TypeError ''Cannot handle this data type'')
         | PStr s \<Rightarrow> Inr (self\<lparr>thumbnail := Some (Square (0, 0, 128))\<rparr>)
         | _ \<Rightarrow> Inr (self\<lparr>thumbnail := None\<rparr>))
      else if map_of (params self) ''latent_type'' \<noteq> None then
        (let self = self\<lparr>latent_type := params_get (params self) ''latent_type'' PNone\<rparr> in
         case color_map_get (latent_type self) of
           Inl e \<Rightarrow> Inl e
         | Inr color \<Rightarrow> Inr (self\<lparr>thumbnail := Some (Square color)\<rparr>))
      else Inr self)"

text \<open>
  The constructor call of \<open>add_job\<close>:
  \<open>Job(id=job_id, params=params, status=PENDING, created_at=time.time(), progress_data={}, stream=AsyncStream())\<close>,
  the other fields with their defaults, followed by \<open>__post_init__\<close>.
\<close>

definition new_job :: "(nat \<Rightarrow> bool) \<Rightarrow> real \<Rightarrow> string \<Rightarrow> (string \<times> pyval) list \<Rightarrow> py_error + Job" where
  "new_job fromarray_ok now jid ps =
     post_init fromarray_ok
       \<lparr>job_id = jid, params = ps, status = PENDING, created_at = now,
        started_at = None, completed_at = None, error = None, result = PNone,
        progress_data = PDict [], queue_position = None,
        stream = \<lparr>input_queue = []\<rparr>, input_image = PNone, latent_type = PNone,
        thumbnail = None, generation_type = PNone\<rparr>"

section \<open>The queue\<close>

text \<open>
  \<open>VideoJobQueue\<close>: \<open>queue\<close> is the FIFO of job identifiers, \<open>jobs\<close> the table (a dictionary,
  in insertion order), \<open>current_job\<close> the identifier of the job object the attribute
  refers to, \<open>worker_function\<close> whether a worker function has been set.
\<close>

record VideoJobQueue =
  queue :: "string list"
  jobs :: "(string \<times> Job) list"
  current_job :: "string option"
  worker_function :: bool
  is_processing :: bool

definition init_queue :: VideoJobQueue where
  "init_queue =
     \<lparr>queue = [], jobs = [], current_job = None, worker_function = False, is_processing = False\<rparr>"

definition set_worker_function :: "VideoJobQueue \<Rightarrow> VideoJobQueue" where
  "set_worker_function self = self\<lparr>worker_function := True\<rparr>"

definition get_job :: "string \<Rightarrow> VideoJobQueue \<Rightarrow> Job option" where
  "get_job jid self = map_of (jobs self) jid"

definition get_all_jobs :: "VideoJobQueue \<Rightarrow> Job list" where
  "get_all_jobs self = map snd (jobs self)"

text \<open>
  A job is an object that the table and the worker loop share; an assignment to one of
  its fields is an update of the table's entry. Jobs are never taken out of the table.
\<close>

definition modify_job :: "string \<Rightarrow> (Job \<Rightarrow> Job) \<Rightarrow> VideoJobQueue \<Rightarrow> VideoJobQueue" where
  "modify_job jid f self = self\<lparr>jobs := AList.map_entry jid f (jobs self)\<rparr>"

text \<open>\<open>cancel_job\<close>, with the time that \<open>time.time()\<close> gives.\<close>

definition cancel_job :: "real \<Rightarrow> string \<Rightarrow> VideoJobQueue \<Rightarrow> bool \<times> VideoJobQueue" where
  "cancel_job now jid self =
     (case map_of (jobs self) jid of
        None \<Rightarrow> (False, self)
      | Some job \<Rightarrow>
          if status job = PENDING then
            (True, modify_job jid (\<lambda>j. j\<lparr>status := CANCELLED, completed_at := Some now\<rparr>) self)
          else if status job = RUNNING then
            (True, modify_job jid
               (\<lambda>j. j\<lparr>stream := push (PStr ''end'') (stream j),
                      status := CANCELLED, completed_at := Some now\<rparr>) self)
          else (False, self))"

text \<open>\<open>get_queue_position\<close>; the loop over \<open>self.jobs.values()\<close> is \<open>count_ahead\<close>.\<close>

fun count_ahead :: "real \<Rightarrow> Job list \<Rightarrow> int \<Rightarrow> int" where
  "count_ahead t [] position = position"
| "count_ahead t (j # js) position =
     count_ahead t js (if status j = PENDING \<and> created_at j < t then position + 1 else position)"

definition get_queue_position :: "string \<Rightarrow> VideoJobQueue \<Rightarrow> int option" where
  "get_queue_position jid self =
     (case map_of (jobs self) jid of
        None \<Rightarrow> None
      | Some job \<Rightarrow>
          if status job = RUNNING then Some 0
          else if status job \<noteq> PENDING then None
          else Some (count_ahead (created_at job) (map snd (jobs self)) 1))"

definition update_job_progress :: "string \<Rightarrow> pyval \<Rightarrow> VideoJobQueue \<Rightarrow> VideoJobQueue" where
  "update_job_progress jid pd self = modify_job jid (\<lambda>j. j\<lparr>progress_data := pd\<rparr>) self"

section \<open>The snapshot serializer\<close>

text \<open>\<open>json.dumps(v)\<close>, of which only the success matters here.\<close>

definition json_dumps :: "pyval \<Rightarrow> py_error + unit" where
  "json_dumps v =
     (if json_serializable v then Inr ()
      else Inl (TypeError ''Object is not JSON serializable''))"

fun is_TypeError :: "py_error \<Rightarrow> bool" where
  "is_TypeError (TypeError m) = True"
| "is_TypeError e = False"

fun is_OverflowError :: "py_error \<Rightarrow> bool" where
  "is_OverflowError (OverflowError m) = True"
| "is_OverflowError e = False"

fun is_ValueError :: "py_error \<Rightarrow> bool" where
  "is_ValueError (ValueError m) = True"
| "is_ValueError e = False"

fun is_IndexError :: "py_error \<Rightarrow> bool" where
  "is_IndexError (IndexError m) = True"
| "is_IndexError e = False"

text \<open>
  The loop \<open>for k, v in job.params.items()\<close> of \<open>serialize_job\<close>, with \<open>serialized_params\<close>
  as the accumulator: TypeError and OverflowError of \<open>json.dumps\<close> are swallowed, any
  other exception leaves the loop.
\<close>

fun filter_params ::
  "(string \<times> pyval) list \<Rightarrow> (pyval \<times> pyval) list \<Rightarrow> py_error + (pyval \<times> pyval) list" where
  "filter_params [] serialized_params = Inr serialized_params"
| "filter_params ((k, v) # items) serialized_params =
     (if k \<notin> set [''input_image'', ''end_frame_image'', ''stream''] then
        (case json_dumps (PDict [(PStr k, v)]) of
           Inr u \<Rightarrow> filter_params items (dict_put serialized_params (PStr k) v)
         | Inl e \<Rightarrow>
             if is_TypeError e \<or> is_OverflowError e then filter_params items serialized_params
             else Inl e)
      else filter_params items serialized_params)"

text \<open>\<open>x if isinstance(x, list) else ([x] if x is not None else [])\<close>.\<close>

definition ensure_list :: "pyval \<Rightarrow> pyval list" where
  "ensure_list x = (case x of PList xs \<Rightarrow> xs | PNone \<Rightarrow> [] | _ \<Rightarrow> [x])"

text \<open>
  The body of the \<open>try\<close> for one selected LoRA: the index of the name among the loaded
  names (\<open>-1\<close> when there are none), the weight at that index, its first item when it is a
  list, the conversion to \<open>float\<close>, and the assignment to \<open>lora_data[lora_name]\<close>.
\<close>

definition lora_try ::
  "(string \<Rightarrow> real option) \<Rightarrow> pyval list \<Rightarrow> pyval list \<Rightarrow> pyval \<Rightarrow> (pyval \<times> pyval) list
     \<Rightarrow> py_error + (pyval \<times> pyval) list" where
  "lora_try s2f lora_loaded_names lora_values lora_name lora_data =
     (case (if lora_loaded_names \<noteq> []
            then (case py_index lora_loaded_names lora_name of
                    Inl e \<Rightarrow> Inl e | Inr i \<Rightarrow> Inr (int i))
            else Inr (- 1)) of
        Inl e \<Rightarrow> Inl e
      | Inr idx \<Rightarrow>
          (let weight =
                 (if lora_values \<noteq> [] \<and> 0 \<le> idx \<and> idx < int (length lora_values)
                  then lora_values ! nat idx else PFloat 1);
               weight_value =
                 (case weight of
                    PList ws \<Rightarrow> (case ws of [] \<Rightarrow> PFloat 1 | w # ws' \<Rightarrow> w)
                  | _ \<Rightarrow> weight)
           in case py_float s2f weight_value of
                Inl e \<Rightarrow> Inl e
              | Inr r \<Rightarrow> dict_setitem lora_data lora_name (PFloat r)))"

text \<open>
  One round of \<open>for lora_name in selected_loras\<close>: both \<open>except\<close> clauses assign the
  default weight (the second one after a \<open>print\<close>); an exception of that assignment
  leaves the loop.
\<close>

definition lora_step ::
  "(string \<Rightarrow> real option) \<Rightarrow> pyval list \<Rightarrow> pyval list \<Rightarrow> pyval \<Rightarrow> (pyval \<times> pyval) list
     \<Rightarrow> py_error + (pyval \<times> pyval) list" where
  "lora_step s2f lora_loaded_names lora_values lora_name lora_data =
     (case lora_try s2f lora_loaded_names lora_values lora_name lora_data of
        Inr d \<Rightarrow> Inr d
      | Inl e \<Rightarrow>
          if is_ValueError e \<or> is_IndexError e then dict_setitem lora_data lora_name (PFloat 1)
          else dict_setitem lora_data lora_name (PFloat 1))"

fun lora_loop ::
  "(string \<Rightarrow> real option) \<Rightarrow> pyval list \<Rightarrow> pyval list \<Rightarrow> pyval list \<Rightarrow> (pyval \<times> pyval) list
     \<Rightarrow> py_error + (pyval \<times> pyval) list" where
  "lora_loop s2f lora_loaded_names lora_values [] lora_data = Inr lora_data"
| "lora_loop s2f lora_loaded_names lora_values (lora_name # selected_loras) lora_data =
     (case lora_step s2f lora_loaded_names lora_values lora_name lora_data of
        Inl e \<Rightarrow> Inl e
      | Inr d \<Rightarrow> lora_loop s2f lora_loaded_names lora_values selected_loras d)"

text \<open>\<open>"selected_loras" in job.params and job.params["selected_loras"]\<close>, as \<open>if\<close> tests it.\<close>

definition has_selected_loras :: "(string \<times> pyval) list \<Rightarrow> py_error + bool" where
  "has_selected_loras ps =
     (case map_of ps ''selected_loras'' of None \<Rightarrow> Inr False | Some v \<Rightarrow> py_truth v)"

definition opt_float :: "real option \<Rightarrow> pyval" where
  "opt_float x = (case x of None \<Rightarrow> PNone | Some r \<Rightarrow> PFloat r)"

definition opt_str :: "string option \<Rightarrow> pyval" where
  "opt_str x = (case x of None \<Rightarrow> PNone | Some s \<Rightarrow> PStr s)"

definition opt_int :: "int option \<Rightarrow> pyval" where
  "opt_int x = (case x of None \<Rightarrow> PNone | Some i \<Rightarrow> PInt i)"

text \<open>The body of the outer \<open>try\<close> of \<open>serialize_job\<close>.\<close>

definition serialize_body :: "(string \<Rightarrow> real option) \<Rightarrow> Job \<Rightarrow> py_error + (pyval \<times> pyval) list" where
  "serialize_body s2f job =
     (let serialized =
            [(PStr ''id'', PStr (job_id job)),
             (PStr ''status'', PStr (status_value (status job))),
             (PStr ''created_at'', PFloat (created_at job)),
             (PStr ''started_at'', opt_float (started_at job)),
             (PStr ''completed_at'', opt_float (completed_at job)),
             (PStr ''error'', opt_str (error job)),
             (PStr ''result'', result job),
             (PStr ''queue_position'', opt_int (queue_position job)),
             (PStr ''generation_type'', generation_type job)]
      in
      case filter_params (params job) [] of
        Inl e \<Rightarrow> Inl e
      | Inr serialized_params \<Rightarrow>
          (case has_selected_loras (params job) of
             Inl e \<Rightarrow> Inl e
           | Inr b \<Rightarrow>
               if b then
                 (let selected_loras = ensure_list (params_get (params job) ''selected_loras'' PNone);
                      lora_values = ensure_list (params_get (params job) ''lora_values'' (PList []));
                      lora_loaded_names =
                        ensure_list (params_get (params job) ''lora_loaded_names'' (PList []))
                  in case lora_loop s2f lora_loaded_names lora_values selected_loras [] of
                       Inl e \<Rightarrow> Inl e
                     | Inr lora_data \<Rightarrow>
                         Inr (dict_put serialized (PStr ''params'')
                                (PDict (dict_put serialized_params (PStr ''loras'') (PDict lora_data)))))
               else Inr (dict_put serialized (PStr ''params'') (PDict serialized_params))))"

definition serialize_job :: "(string \<Rightarrow> real option) \<Rightarrow> Job \<Rightarrow> (pyval \<times> pyval) list" where
  "serialize_job s2f job =
     (case serialize_body s2f job of
        Inr serialized \<Rightarrow> serialized
      | Inl e \<Rightarrow>
          [(PStr ''id'', PStr (job_id job)),
           (PStr ''status'', PStr (status_value (status job))),
           (PStr ''error'', PStr (''Error serializing: '' @ str_exc e))])"

text \<open>
  \<open>save_queue_to_json\<close>: every job of the table serialized under its identifier, then
  written to \<open>queue.json\<close>. \<open>writable\<close> says that the file can be opened and written;
  \<open>json.dump\<close> raises TypeError for a record it cannot serialize. The function catches
  every exception; its value here is the document written, \<open>None\<close> after a failure.
\<close>

definition save_body ::
  "(string \<Rightarrow> real option) \<Rightarrow> bool \<Rightarrow> VideoJobQueue \<Rightarrow> py_error + pyval" where
  "save_body s2f writable self =
     (let job_ids = map fst (jobs self);
          serialized_jobs =
            concat (map (\<lambda>jid. case get_job jid self of
                                  None \<Rightarrow> []
                                | Some job \<Rightarrow> [(PStr jid, PDict (serialize_job s2f job))]) job_ids)
      in if \<not> writable then Inl (IOError ''queue.json'')
         else case json_dumps (PDict serialized_jobs) of
                Inl e \<Rightarrow> Inl e
              | Inr u \<Rightarrow> Inr (PDict serialized_jobs))"

definition save_queue_to_json ::
  "(string \<Rightarrow> real option) \<Rightarrow> bool \<Rightarrow> VideoJobQueue \<Rightarrow> pyval option" where
  "save_queue_to_json s2f writable self =
     (case save_body s2f writable self of Inl e \<Rightarrow> None | Inr doc \<Rightarrow> Some doc)"

text \<open>
  \<open>add_job\<close>, with the time of \<open>time.time()\<close> and the text of \<open>uuid.uuid4()\<close>. An exception of
  the \<open>Job\<close> constructor leaves \<open>add_job\<close> before the table is touched. The result is the
  identifier, the queue, and what was written to \<open>queue.json\<close>.
\<close>

definition add_job ::
  "(nat \<Rightarrow> bool) \<Rightarrow> (string \<Rightarrow> real option) \<Rightarrow> bool \<Rightarrow> real \<Rightarrow> string \<Rightarrow> (string \<times> pyval) list
     \<Rightarrow> VideoJobQueue \<Rightarrow> py_error + string \<times> VideoJobQueue \<times> pyval option" where
  "add_job fromarray_ok s2f writable now uuid4 ps self =
     (case new_job fromarray_ok now uuid4 ps of
        Inl e \<Rightarrow> Inl e
      | Inr job \<Rightarrow>
          (let self' = self\<lparr>jobs := AList.update uuid4 job (jobs self),
                            queue := queue self @ [uuid4]\<rparr>
           in Inr (uuid4, self', save_queue_to_json s2f writable self')))"

section \<open>The worker loop\<close>

text \<open>
  The worker thread runs \<open>_worker_loop\<close> while other threads call \<open>add_job\<close>, \<open>cancel_job\<close>
  and \<open>update_job_progress\<close>. Every access to the table is inside \<open>with self.lock\<close>, so a
  step of the system is one call of those, or the piece of the loop from one point
  outside the lock to the next. \<open>worker_pc\<close> is the point where the worker thread stands,
  with its local variables \<open>job_id\<close> and \<open>job_completed\<close>:
  \<^item> \<open>AtGet\<close>: before \<open>self.queue.get\<close>;
  \<^item> \<open>AtClaim job_id\<close>: before the first \<open>with self.lock\<close> of the round;
  \<^item> \<open>AtStart job_id\<close>: the job is marked running, before the body of the inner \<open>try\<close>;
  \<^item> \<open>AtCheck job_id\<close>: at the top of the inner \<open>while True\<close>;
  \<^item> \<open>AtRead job_id\<close>: before \<open>job.stream.output_queue.next()\<close>;
  \<^item> \<open>AtExcept job_id msg\<close>: an exception with the text \<open>msg\<close> has left the inner
    \<open>try\<close>, before its handler;
  \<^item> \<open>AtFinally job_id job_completed\<close>: before the \<open>finally\<close>;
  \<^item> \<open>AtOuter cur msg\<close>: an exception with the text \<open>msg\<close> is on its way to the handler of
    the outer \<open>try\<close>; \<open>cur\<close> is the job that \<open>self.current_job\<close> still refers to, if any.

  \<open>self.queue.task_done()\<close> only counts for \<open>Queue.join\<close>, which nothing calls; it is left
  out.
\<close>

datatype worker_pc =
    AtGet
  | AtClaim string
  | AtStart string
  | AtCheck string
  | AtRead string
  | AtExcept string string
  | AtFinally string bool
  | AtOuter "string option" string

text \<open>
  Modelled from the spec: \<open>async_run\<close> of \<open>diffusers_helper.thread_utils\<close> is not among the
  sources. The spec has the routine invoked asynchronously (fire and forget), so for the
  loop the call either returns or raises. The read of the stream's output side gives an
  item \<open>(flag, data)\<close>, or raises: \<open>FileItem\<close>, \<open>ProgressItem\<close> (with the three parts of
  \<open>data\<close>) and \<open>EndItem\<close> are the items with the flags \<open>file\<close>, \<open>progress\<close> and \<open>end\<close>;
  \<open>OtherItem\<close> is an item with any other flag; \<open>QueueEmpty\<close> is IndexError; \<open>ReadError\<close> is
  any other exception, also that of an item which cannot be unpacked.
\<close>

datatype async_result = Started | Raised string

datatype stream_read =
    FileItem pyval
  | ProgressItem pyval pyval pyval
  | EndItem
  | OtherItem
  | QueueEmpty
  | ReadError

text \<open>The first \<open>with self.lock\<close> of a round: skip, requeue, or mark the job running.\<close>

definition claim :: "real \<Rightarrow> string \<Rightarrow> VideoJobQueue \<Rightarrow> worker_pc \<times> VideoJobQueue" where
  "claim now jid self =
     (case map_of (jobs self) jid of
        None \<Rightarrow> (AtGet, self)
      | Some job \<Rightarrow>
          if status job = CANCELLED then (AtGet, self)
          else if is_processing self then (AtGet, self\<lparr>queue := queue self @ [jid]\<rparr>)
          else
            (AtStart jid,
             (modify_job jid (\<lambda>j. j\<lparr>status := RUNNING, started_at := Some now\<rparr>) self)
               \<lparr>current_job := Some jid, is_processing := True\<rparr>))"

text \<open>The body of the inner \<open>try\<close> up to the \<open>while True\<close>.\<close>

definition start_worker :: "async_result \<Rightarrow> string \<Rightarrow> VideoJobQueue \<Rightarrow> worker_pc" where
  "start_worker r jid self =
     (if \<not> worker_function self
      then AtExcept jid ''Worker function not set. Call set_worker_function() first.''
      else case r of Started \<Rightarrow> AtCheck jid | Raised msg \<Rightarrow> AtExcept jid msg)"

text \<open>The check for cancellation at the top of the inner loop.\<close>

definition check_cancelled :: "string \<Rightarrow> VideoJobQueue \<Rightarrow> worker_pc" where
  "check_cancelled jid self =
     (case map_of (jobs self) jid of
        Some job \<Rightarrow> if status job = CANCELLED then AtFinally jid True else AtRead jid
      | None \<Rightarrow> AtRead jid)"

text \<open>One read of the stream and what the loop does with it.\<close>

fun drain :: "stream_read \<Rightarrow> string \<Rightarrow> VideoJobQueue \<Rightarrow> worker_pc \<times> VideoJobQueue" where
  "drain (FileItem data) jid self =
     (AtCheck jid, modify_job jid (\<lambda>j. j\<lparr>result := data\<rparr>) self)"
| "drain (ProgressItem preview desc html) jid self =
     (AtCheck jid,
      modify_job jid
        (\<lambda>j. j\<lparr>progress_data :=
                 PDict [(PStr ''preview'', preview), (PStr ''desc'', desc), (PStr ''html'', html)]\<rparr>)
        self)"
| "drain EndItem jid self = (AtFinally jid True, self)"
| "drain OtherItem jid self = (AtCheck jid, self)"
| "drain QueueEmpty jid self = (AtCheck jid, self)"
| "drain ReadError jid self = (AtCheck jid, self)"

text \<open>The handler \<open>except Exception as e\<close> of the inner \<open>try\<close>; \<open>msg\<close> is \<open>str(e)\<close>.\<close>

definition handle_error :: "real \<Rightarrow> string \<Rightarrow> string \<Rightarrow> VideoJobQueue \<Rightarrow> VideoJobQueue" where
  "handle_error now msg jid self =
     modify_job jid (\<lambda>j. j\<lparr>status := FAILED, error := Some msg, completed_at := Some now\<rparr>) self"

text \<open>
  The \<open>finally\<close>, in two parts: the update of the job up to the \<open>print\<close>, and the
  statements after the \<open>print\<close>.
\<close>

definition finalize_job :: "real \<Rightarrow> bool \<Rightarrow> string \<Rightarrow> VideoJobQueue \<Rightarrow> VideoJobQueue" where
  "finalize_job now job_completed jid self =
     modify_job jid
       (\<lambda>j. if status j = RUNNING then
               (if job_completed then j\<lparr>status := COMPLETED\<rparr>
                else j\<lparr>status := FAILED, error := Some ''Job processing was interrupted''\<rparr>)
                 \<lparr>completed_at := Some now\<rparr>
             else j)
       self"

definition finalize_clear :: "VideoJobQueue \<Rightarrow> VideoJobQueue" where
  "finalize_clear self = self\<lparr>is_processing := False, current_job := None\<rparr>"

definition finalize :: "real \<Rightarrow> bool \<Rightarrow> string \<Rightarrow> VideoJobQueue \<Rightarrow> VideoJobQueue" where
  "finalize now job_completed jid self = finalize_clear (finalize_job now job_completed jid self)"

text \<open>The handler \<open>except Exception as e\<close> of the outer \<open>try\<close>; \<open>msg\<close> is \<open>str(e)\<close>.\<close>

definition loop_error :: "real \<Rightarrow> string \<Rightarrow> VideoJobQueue \<Rightarrow> VideoJobQueue" where
  "loop_error now msg self =
     (let self = self\<lparr>is_processing := False\<rparr> in
      case current_job self of
        None \<Rightarrow> self
      | Some jid \<Rightarrow>
          (modify_job jid
             (\<lambda>j. j\<lparr>status := FAILED, error := Some (''Worker loop error: '' @ msg),
                    completed_at := Some now\<rparr>) self)
            \<lparr>current_job := None\<rparr>)"

section \<open>The system: callers and the worker thread\<close>

record system =
  engine :: VideoJobQueue
  worker :: worker_pc

definition init_system :: system where
  "init_system = \<lparr>engine = init_queue, worker = AtGet\<rparr>"

text \<open>
  The steps. \<open>Submit\<close>, \<open>Cancel\<close>, \<open>Progress\<close> and \<open>SetWorker\<close> are calls from other threads,
  the rest are the worker thread's. \<open>Fault t msg\<close> is an exception with the text \<open>msg\<close>
  raised by the loop's own bookkeeping where no inner handler catches it: by the \<open>print\<close>
  before the job is marked running (nothing has changed yet), by the inner handler before
  its lock (the \<open>finally\<close> then runs with \<open>job_completed\<close> still false), or by the \<open>print\<close>
  of the \<open>finally\<close> (the job is updated, the flag and \<open>current_job\<close> are not yet cleared);
  \<open>t\<close> is the time read by the \<open>finally\<close>. \<open>Outer\<close> is the handler of the outer \<open>try\<close>, which
  takes the lock anew. \<open>uuid.uuid4()\<close> gives a fresh identifier: a
  \<open>Submit\<close> with an identifier of the table is no step. A step that is not possible where
  the worker stands leaves the system as it is.
\<close>

datatype event =
    Submit real string "(string \<times> pyval) list" bool
  | Cancel real string
  | Progress string pyval
  | SetWorker
  | Get
  | Claim real
  | Start async_result
  | Check
  | Read stream_read
  | Except real
  | Finally real
  | Fault real string
  | Outer real

fun step :: "(nat \<Rightarrow> bool) \<Rightarrow> (string \<Rightarrow> real option) \<Rightarrow> event \<Rightarrow> system \<Rightarrow> system" where
  "step fromarray_ok s2f (Submit now uuid4 ps writable) s =
     (if uuid4 \<in> fst ` set (jobs (engine s)) then s
      else case add_job fromarray_ok s2f writable now uuid4 ps (engine s) of
             Inl e \<Rightarrow> s
           | Inr (jid, self', doc) \<Rightarrow> s\<lparr>engine := self'\<rparr>)"
| "step fromarray_ok s2f (Cancel now jid) s = s\<lparr>engine := snd (cancel_job now jid (engine s))\<rparr>"
| "step fromarray_ok s2f (Progress jid pd) s = s\<lparr>engine := update_job_progress jid pd (engine s)\<rparr>"
| "step fromarray_ok s2f SetWorker s = s\<lparr>engine := set_worker_function (engine s)\<rparr>"
| "step fromarray_ok s2f Get s =
     (case worker s of
        AtGet \<Rightarrow>
          (case queue (engine s) of
             [] \<Rightarrow> s
           | jid # rest \<Rightarrow> \<lparr>engine = (engine s)\<lparr>queue := rest\<rparr>, worker = AtClaim jid\<rparr>)
      | _ \<Rightarrow> s)"
| "step fromarray_ok s2f (Claim now) s =
     (case worker s of
        AtClaim jid \<Rightarrow>
          (case claim now jid (engine s) of (pc, self') \<Rightarrow> \<lparr>engine = self', worker = pc\<rparr>)
      | _ \<Rightarrow> s)"
| "step fromarray_ok s2f (Start r) s =
     (case worker s of
        AtStart jid \<Rightarrow> s\<lparr>worker := start_worker r jid (engine s)\<rparr>
      | _ \<Rightarrow> s)"
| "step fromarray_ok s2f Check s =
     (case worker s of
        AtCheck jid \<Rightarrow> s\<lparr>worker := check_cancelled jid (engine s)\<rparr>
      | _ \<Rightarrow> s)"
| "step fromarray_ok s2f (Read item) s =
     (case worker s of
        AtRead jid \<Rightarrow>
          (case drain item jid (engine s) of (pc, self') \<Rightarrow> \<lparr>engine = self', worker = pc\<rparr>)
      | _ \<Rightarrow> s)"
| "step fromarray_ok s2f (Except now) s =
     (case worker s of
        AtExcept jid msg \<Rightarrow>
          \<lparr>engine = handle_error now msg jid (engine s), worker = AtFinally jid True\<rparr>
      | _ \<Rightarrow> s)"
| "step fromarray_ok s2f (Finally now) s =
     (case worker s of
        AtFinally jid job_completed \<Rightarrow>
          \<lparr>engine = finalize now job_completed jid (engine s), worker = AtGet\<rparr>
      | _ \<Rightarrow> s)"
| "step fromarray_ok s2f (Fault t msg) s =
     (case worker s of
        AtClaim jid \<Rightarrow>
          (case claim t jid (engine s) of
             (AtStart jid', self') \<Rightarrow> s\<lparr>worker := AtOuter None msg\<rparr>
           | _ \<Rightarrow> s)
      | AtExcept jid m \<Rightarrow>
          \<lparr>engine = finalize t False jid (engine s), worker = AtOuter None msg\<rparr>
      | AtFinally jid job_completed \<Rightarrow>
          \<lparr>engine = finalize_job t job_completed jid (engine s),
           worker = AtOuter (Some jid) msg\<rparr>
      | _ \<Rightarrow> s)"
| "step fromarray_ok s2f (Outer now) s =
     (case worker s of
        AtOuter cur msg \<Rightarrow> \<lparr>engine = loop_error now msg (engine s), worker = AtGet\<rparr>
      | _ \<Rightarrow> s)"

fun run :: "(nat \<Rightarrow> bool) \<Rightarrow> (string \<Rightarrow> real option) \<Rightarrow> event list \<Rightarrow> system \<Rightarrow> system" where
  "run fromarray_ok s2f [] s = s"
| "run fromarray_ok s2f (e # es) s = run fromarray_ok s2f es (step fromarray_ok s2f e s)"

text \<open>The status of a job in a state of the system.\<close>

definition status_of :: "string \<Rightarrow> system \<Rightarrow> JobStatus option" where
  "status_of jid s = map_option status (map_of (jobs (engine s)) jid)"

definition running_jobs :: "VideoJobQueue \<Rightarrow> Job list" where
  "running_jobs self = filter (\<lambda>j. status j = RUNNING) (map snd (jobs self))"

section \<open>The single-flight invariant\<close>

text \<open>
  The job the worker thread is processing, if any: the one it has marked running and not
  yet finalized.
\<close>

fun in_flight :: "worker_pc \<Rightarrow> string option" where
  "in_flight AtGet = None"
| "in_flight (AtClaim jid) = None"
| "in_flight (AtStart jid) = Some jid"
| "in_flight (AtCheck jid) = Some jid"
| "in_flight (AtRead jid) = Some jid"
| "in_flight (AtExcept jid msg) = Some jid"
| "in_flight (AtFinally jid job_completed) = Some jid"
| "in_flight (AtOuter cur msg) = cur"

text \<open>No job of the table other than \<open>h\<close> is running.\<close>

definition no_running_except :: "string option \<Rightarrow> VideoJobQueue \<Rightarrow> bool" where
  "no_running_except h self \<longleftrightarrow>
     (\<forall>k j. map_of (jobs self) k = Some j \<longrightarrow> status j = RUNNING \<longrightarrow> h = Some k)"

text \<open>
  The invariant of the system: the identifiers of the table are distinct; only the job in
  flight can be running; \<open>current_job\<close> is the job in flight; the processing flag is set
  exactly while a job is in flight.
\<close>

definition single_flight :: "system \<Rightarrow> bool" where
  "single_flight s \<longleftrightarrow>
     distinct (map fst (jobs (engine s)))
     \<and> no_running_except (in_flight (worker s)) (engine s)
     \<and> current_job (engine s) = in_flight (worker s)
     \<and> (is_processing (engine s) \<longleftrightarrow> in_flight (worker s) \<noteq> None)"

section \<open>The state machine of the status\<close>

text \<open>The edges of the state machine, and the steps that are handlers of the worker loop.\<close>

fun legal_edge :: "JobStatus \<Rightarrow> JobStatus \<Rightarrow> bool" where
  "legal_edge PENDING RUNNING = True"
| "legal_edge PENDING CANCELLED = True"
| "legal_edge RUNNING CANCELLED = True"
| "legal_edge RUNNING COMPLETED = True"
| "legal_edge RUNNING FAILED = True"
| "legal_edge a b = False"

fun handler_step :: "event \<Rightarrow> bool" where
  "handler_step (Except now) = True"
| "handler_step (Outer now) = True"
| "handler_step e = False"

text \<open>
  The status of a job of the table; a job that waits in the admission queue is pending
  or cancelled; the status that the job in flight can have where the worker stands.
\<close>

definition job_status :: "VideoJobQueue \<Rightarrow> string \<Rightarrow> JobStatus option" where
  "job_status self jid = map_option status (map_of (jobs self) jid)"

definition waiting :: "VideoJobQueue \<Rightarrow> string \<Rightarrow> bool" where
  "waiting self jid \<longleftrightarrow>
     job_status self jid = Some PENDING \<or> job_status self jid = Some CANCELLED"

fun active_status :: "worker_pc \<Rightarrow> JobStatus set" where
  "active_status (AtFinally jid job_completed) = {RUNNING, CANCELLED, FAILED}"
| "active_status (AtOuter cur msg) = {COMPLETED, FAILED, CANCELLED}"
| "active_status pc = {RUNNING, CANCELLED}"

text \<open>
  The invariant behind the transitions: \<open>single_flight\<close>; no identifier is twice in the
  admission queue; the jobs in the queue and the job just taken from it wait; the job in
  flight is not in the queue and has a status of \<open>active_status\<close>.
\<close>

definition queue_ok :: "system \<Rightarrow> bool" where
  "queue_ok s \<longleftrightarrow>
     single_flight s
     \<and> distinct (queue (engine s))
     \<and> (\<forall>jid \<in> set (queue (engine s)). waiting (engine s) jid)
     \<and> (\<forall>jid. worker s = AtClaim jid \<longrightarrow> waiting (engine s) jid \<and> jid \<notin> set (queue (engine s)))
     \<and> (\<forall>jid. in_flight (worker s) = Some jid \<longrightarrow>
            jid \<notin> set (queue (engine s))
            \<and> (\<exists>a \<in> active_status (worker s). job_status (engine s) jid = Some a))"

section \<open>The LoRA projection in the words of the spec\<close>




text \<open>The entries of the serialized record that come before the params.\<close>

definition head_fields :: "Job \<Rightarrow> (pyval \<times> pyval) list" where
  "head_fields job =
            [(PStr ''id'', PStr (job_id job)),
             (PStr ''status'', PStr (status_value (status job))),
             (PStr ''created_at'', PFloat (created_at job)),
             (PStr ''started_at'', opt_float (started_at job)),
             (PStr ''completed_at'', opt_float (completed_at job)),
             (PStr ''error'', opt_str (error job)),
             (PStr ''result'', result job),
             (PStr ''queue_position'', opt_int (queue_position job)),
             (PStr ''generation_type'', generation_type job)]"

section \<open>Example states\<close>

text \<open>
  Inputs for the examples below: a PIL that accepts every array, a \<open>float\<close> that accepts
  no string, and states reached from the initial one.
\<close>

definition accept_all :: "nat \<Rightarrow> bool" where
  "accept_all a = True"

definition no_float :: "string \<Rightarrow> real option" where
  "no_float s = None"

text \<open>Two jobs submitted one after the other, with the same reading of the clock.\<close>

definition two_jobs :: system where
  "two_jobs =
     run accept_all no_float [Submit 1 ''a'' [] True, Submit 1 ''b'' [] True] init_system"

text \<open>Four jobs: the first one claimed by the worker, the last one cancelled.\<close>

definition four_jobs :: system where
  "four_jobs =
     run accept_all no_float
       [Submit 1 ''a'' [] True, Submit 2 ''b'' [] True, Submit 3 ''c'' [] True,
        Submit 4 ''d'' [] True, Cancel 5 ''d'', Get, Claim 6]
       init_system"

text \<open>What a caller sees of a job: status, \<open>created_at\<close>, \<open>completed_at\<close>, \<open>error\<close>.\<close>

definition job_view ::
  "string \<Rightarrow> VideoJobQueue \<Rightarrow> (JobStatus \<times> real \<times> real option \<times> string option) option" where
  "job_view jid self =
     map_option (\<lambda>j. (status j, created_at j, completed_at j, error j)) (map_of (jobs self) jid)"

text \<open>A job as \<open>add_job\<close> creates it, and params with LoRA selections.\<close>

definition example_job :: "(string \<times> pyval) list \<Rightarrow> Job" where
  "example_job ps =
     \<lparr>job_id = ''a'', params = ps, status = PENDING, created_at = 1,
      started_at = None, completed_at = None, error = None, result = PNone,
      progress_data = PDict [], queue_position = None,
      stream = \<lparr>input_queue = []\<rparr>, input_image = PNone, latent_type = PNone,
      thumbnail = None, generation_type = PStr ''Original''\<rparr>"

definition lora_params :: "(string \<times> pyval) list" where
  "lora_params =
     [(''prompt'', PStr ''a cat''),
      (''input_image'', PNdarray 0),
      (''callback'', PObject 1),
      (''selected_loras'', PList [PStr ''x'']),
      (''lora_loaded_names'', PList [PStr ''x'', PStr ''y'']),
      (''lora_values'', PList [PFloat 0.7, PFloat 0.3])]"

section \<open>Properties\<close>

subsection \<open>The table\<close>

lemma map_of_modify_job:
  "map_of (jobs (modify_job jid f self)) k =
     (if k = jid then map_option f (map_of (jobs self) jid) else map_of (jobs self) k)"
  by (simp add: modify_job_def map_of_map_entry split: option.splits)

lemma modify_job_other_fields:
  "queue (modify_job jid f self) = queue self"
  "current_job (modify_job jid f self) = current_job self"
  "worker_function (modify_job jid f self) = worker_function self"
  "is_processing (modify_job jid f self) = is_processing self"
  by (simp_all add: modify_job_def)

lemma modify_job_jobs_reset: "(modify_job jid f self)\<lparr>jobs := jobs self\<rparr> = self"
  by (simp add: modify_job_def)

lemma job_view_SomeD:
  "job_view jid self = Some (st, t, c, e) \<Longrightarrow>
     \<exists>job. map_of (jobs self) jid = Some job \<and> status job = st \<and> created_at job = t
          \<and> completed_at job = c \<and> error job = e"
  by (auto simp: job_view_def)

lemma job_view_NoneD: "job_view jid self = None \<Longrightarrow> map_of (jobs self) jid = None"
  by (simp add: job_view_def)

lemma four_jobs_view:
  "job_view ''a'' (engine four_jobs) = Some (RUNNING, 1, None, None)"
  "job_view ''b'' (engine four_jobs) = Some (PENDING, 2, None, None)"
  "job_view ''c'' (engine four_jobs) = Some (PENDING, 3, None, None)"
  "job_view ''d'' (engine four_jobs) = Some (CANCELLED, 4, Some 5, None)"
  "job_view ''zz'' (engine four_jobs) = None"
  by code_simp+

subsection \<open>Cancellation\<close>

text \<open>
  C3. \<open>cancel_job\<close> returns true exactly when the table has a job with that identifier
  whose status is pending or running. From pending, the job becomes cancelled with
  \<open>completed_at\<close> set, and nothing else of it changes (no signal is pushed). From running,
  the job becomes cancelled with \<open>completed_at\<close> set and the signal \<open>end\<close> pushed into the
  input side of its stream. When the result is false the queue is as before. In every
  case the other jobs and the other fields of the queue are as before.
\<close>

theorem cancel_job_spec:
  "(fst (cancel_job now jid self) \<longleftrightarrow>
      (\<exists>job. map_of (jobs self) jid = Some job \<and> (status job = PENDING \<or> status job = RUNNING)))
   \<and> (\<forall>job. map_of (jobs self) jid = Some job \<and> status job = PENDING \<longrightarrow>
         map_of (jobs (snd (cancel_job now jid self))) jid =
           Some (job\<lparr>status := CANCELLED, completed_at := Some now\<rparr>))
   \<and> (\<forall>job. map_of (jobs self) jid = Some job \<and> status job = RUNNING \<longrightarrow>
         map_of (jobs (snd (cancel_job now jid self))) jid =
           Some (job\<lparr>stream := \<lparr>input_queue = input_queue (stream job) @ [PStr ''end'']\<rparr>,
                     status := CANCELLED, completed_at := Some now\<rparr>))
   \<and> (\<not> fst (cancel_job now jid self) \<longrightarrow> snd (cancel_job now jid self) = self)
   \<and> (\<forall>k. k \<noteq> jid \<longrightarrow>
         map_of (jobs (snd (cancel_job now jid self))) k = map_of (jobs self) k)
   \<and> (snd (cancel_job now jid self))\<lparr>jobs := jobs self\<rparr> = self"
  by (auto simp: cancel_job_def map_of_modify_job push_def modify_job_jobs_reset
        split: option.splits)

text \<open>
  In the state \<open>four_jobs\<close>: the running job and a pending job can be cancelled, the
  cancelled job and an unknown identifier cannot.
\<close>

theorem cancel_job_witness:
  "fst (cancel_job 9 ''a'' (engine four_jobs)) \<and> fst (cancel_job 9 ''b'' (engine four_jobs))
   \<and> \<not> fst (cancel_job 9 ''d'' (engine four_jobs))
   \<and> snd (cancel_job 9 ''d'' (engine four_jobs)) = engine four_jobs
   \<and> \<not> fst (cancel_job 9 ''zz'' (engine four_jobs))"
proof -
  have a: "fst (cancel_job 9 ''a'' (engine four_jobs))"
    using job_view_SomeD[OF four_jobs_view(1)]
      cancel_job_spec[of 9 "''a''" "engine four_jobs", THEN conjunct1] by blast
  have b: "fst (cancel_job 9 ''b'' (engine four_jobs))"
    using job_view_SomeD[OF four_jobs_view(2)]
      cancel_job_spec[of 9 "''b''" "engine four_jobs", THEN conjunct1] by blast
  have d: "\<not> fst (cancel_job 9 ''d'' (engine four_jobs))"
    using job_view_SomeD[OF four_jobs_view(4)]
      cancel_job_spec[of 9 "''d''" "engine four_jobs", THEN conjunct1] by auto
  have d': "snd (cancel_job 9 ''d'' (engine four_jobs)) = engine four_jobs"
    using d cancel_job_spec[of 9 "''d''" "engine four_jobs"] by blast
  have z: "\<not> fst (cancel_job 9 ''zz'' (engine four_jobs))"
    using job_view_NoneD[OF four_jobs_view(5)]
      cancel_job_spec[of 9 "''zz''" "engine four_jobs", THEN conjunct1] by simp
  show ?thesis using a b d d' z by simp
qed

subsection \<open>The position in the queue\<close>

lemma count_ahead_filter:
  "count_ahead t js p = p + int (length (filter (\<lambda>j. status j = PENDING \<and> created_at j < t) js))"
  by (induction js arbitrary: p) auto

lemma filter_mono_length:
  "(\<And>x. x \<in> set xs \<Longrightarrow> P x \<Longrightarrow> Q x) \<Longrightarrow> length (filter P xs) \<le> length (filter Q xs)"
  by (induction xs) auto

lemma filter_strict_length:
  assumes "\<And>x. x \<in> set xs \<Longrightarrow> P x \<Longrightarrow> Q x" and "a \<in> set xs" and "Q a" and "\<not> P a"
  shows "length (filter P xs) < length (filter Q xs)"
  using assms
proof (induction xs)
  case Nil
  then show ?case by simp
next
  case (Cons x xs)
  show ?case
  proof (cases "a \<in> set xs")
    case True
    then have "length (filter P xs) < length (filter Q xs)"
      using Cons by auto
    then show ?thesis using Cons.prems(1)[of x] by auto
  next
    case False
    then have "x = a" using Cons.prems(2) by auto
    moreover have "length (filter P xs) \<le> length (filter Q xs)"
      using Cons.prems(1) by (intro filter_mono_length) auto
    ultimately show ?thesis using Cons.prems by auto
  qed
qed

text \<open>
  The position does not always grow with later arrival: two jobs submitted in sequence
  with the same reading of the clock are both at position 1, whatever their order of
  arrival in the admission queue.
\<close>

theorem get_queue_position_tie:
  "queue (engine two_jobs) = [''a'', ''b'']
   \<and> get_queue_position ''a'' (engine two_jobs) = Some 1
   \<and> get_queue_position ''b'' (engine two_jobs) = Some 1"
  by code_simp

text \<open>
  C4, amended. The position is 0 for a running job; for a pending job it is 1 plus the
  number of pending jobs of the table created strictly earlier (the job itself is not
  among them); it is none for an unknown identifier and for a completed, failed or
  cancelled job. Of two pending jobs, the one created strictly earlier has the strictly
  smaller position, and two created at the same time have the same position: the order
  of arrival breaks no tie.
\<close>

theorem get_queue_position_spec:
  "(\<forall>job. map_of (jobs self) jid = Some job \<and> status job = RUNNING \<longrightarrow>
        get_queue_position jid self = Some 0)
   \<and> (\<forall>job. map_of (jobs self) jid = Some job \<and> status job = PENDING \<longrightarrow>
        get_queue_position jid self =
          Some (1 + int (length (filter (\<lambda>j. status j = PENDING \<and> created_at j < created_at job)
                                  (map snd (jobs self))))))
   \<and> (map_of (jobs self) jid = None \<longrightarrow> get_queue_position jid self = None)
   \<and> (\<forall>job. map_of (jobs self) jid = Some job
          \<and> (status job = COMPLETED \<or> status job = FAILED \<or> status job = CANCELLED) \<longrightarrow>
        get_queue_position jid self = None)
   \<and> (\<forall>a b ja jb. map_of (jobs self) a = Some ja \<and> map_of (jobs self) b = Some jb
          \<and> status ja = PENDING \<and> status jb = PENDING \<longrightarrow>
        (created_at ja < created_at jb \<longrightarrow>
           (\<exists>m n. get_queue_position a self = Some m \<and> get_queue_position b self = Some n \<and> m < n))
        \<and> (created_at ja = created_at jb \<longrightarrow>
           get_queue_position a self = get_queue_position b self))"
proof -
  define n where
    "n t = length (filter (\<lambda>j. status j = PENDING \<and> created_at j < t) (map snd (jobs self)))"
    for t
  have pos: "get_queue_position k self = Some (1 + int (n (created_at job)))"
    if "map_of (jobs self) k = Some job" "status job = PENDING" for k and job :: Job
    using that by (simp add: get_queue_position_def count_ahead_filter n_def)
  have strict: "n (created_at ja) < n (created_at jb)"
    if "map_of (jobs self) a = Some ja" "status ja = PENDING" "created_at ja < created_at jb"
    for a and ja jb :: Job
    unfolding n_def
  proof (rule filter_strict_length[where a = ja])
    show "ja \<in> set (map snd (jobs self))"
      using that(1) by (force dest: map_of_SomeD)
  qed (use that in auto)
  have run: "get_queue_position jid self = Some 0"
    if "map_of (jobs self) jid = Some job" "status job = RUNNING" for job
    using that by (simp add: get_queue_position_def)
  have none: "get_queue_position jid self = None" if "map_of (jobs self) jid = None"
    using that by (simp add: get_queue_position_def)
  have fin: "get_queue_position jid self = None"
    if "map_of (jobs self) jid = Some job"
       "status job = COMPLETED \<or> status job = FAILED \<or> status job = CANCELLED" for job
    using that by (auto simp: get_queue_position_def)
  show ?thesis
    using pos strict run none fin unfolding n_def by fastforce
qed

text \<open>
  In the state \<open>four_jobs\<close>: the running job is at 0, the cancelled job and an unknown
  identifier have no position, and of the two pending jobs the earlier one is ahead.
\<close>

theorem get_queue_position_witness:
  "get_queue_position ''a'' (engine four_jobs) = Some 0
   \<and> get_queue_position ''d'' (engine four_jobs) = None
   \<and> get_queue_position ''zz'' (engine four_jobs) = None
   \<and> (\<exists>m n. get_queue_position ''b'' (engine four_jobs) = Some m
          \<and> get_queue_position ''c'' (engine four_jobs) = Some n \<and> m < n)"
proof -
  note spec = get_queue_position_spec[of "engine four_jobs"]
  have a: "get_queue_position ''a'' (engine four_jobs) = Some 0"
    using job_view_SomeD[OF four_jobs_view(1)] spec[of "''a''", THEN conjunct1] by blast
  have d: "get_queue_position ''d'' (engine four_jobs) = None"
    using job_view_SomeD[OF four_jobs_view(4)]
      spec[of "''d''", THEN conjunct2, THEN conjunct2, THEN conjunct2, THEN conjunct1] by blast
  have z: "get_queue_position ''zz'' (engine four_jobs) = None"
    using job_view_NoneD[OF four_jobs_view(5)]
      spec[of "''zz''", THEN conjunct2, THEN conjunct2, THEN conjunct1] by blast
  obtain jb where jb: "map_of (jobs (engine four_jobs)) ''b'' = Some jb" "status jb = PENDING"
      "created_at jb = 2"
    using job_view_SomeD[OF four_jobs_view(2)] by blast
  obtain jc where jc: "map_of (jobs (engine four_jobs)) ''c'' = Some jc" "status jc = PENDING"
      "created_at jc = 3"
    using job_view_SomeD[OF four_jobs_view(3)] by blast
  have "created_at jb < created_at jc" using jb jc by simp
  then have bc: "\<exists>m n. get_queue_position ''b'' (engine four_jobs) = Some m
          \<and> get_queue_position ''c'' (engine four_jobs) = Some n \<and> m < n"
    using jb jc
      spec[of "''a''", THEN conjunct2, THEN conjunct2, THEN conjunct2, THEN conjunct2,
           rule_format, of "''b''" jb "''c''" jc]
    by blast
  show ?thesis using a d z bc by simp
qed

subsection \<open>Submission\<close>

lemma new_job_fields:
  assumes "new_job ok now jid ps = Inr job"
  shows "job_id job = jid" "params job = ps" "status job = PENDING" "created_at job = now"
    "started_at job = None" "completed_at job = None" "error job = None"
    "stream job = \<lparr>input_queue = []\<rparr>"
    "generation_type job = (case map_of ps ''model_type'' of Some v \<Rightarrow> v | None \<Rightarrow> PStr ''Original'')"
  using assms
  by (auto simp: new_job_def post_init_def Let_def params_get_def
      split: if_splits pyval.splits sum.splits option.splits)


lemma add_job_Inr:
  "new_job ok now jid ps = Inr job \<Longrightarrow>
   add_job ok s2f writable now jid ps self =
     Inr (jid, self\<lparr>jobs := AList.update jid job (jobs self), queue := queue self @ [jid]\<rparr>,
          save_queue_to_json s2f writable
            (self\<lparr>jobs := AList.update jid job (jobs self), queue := queue self @ [jid]\<rparr>))"
  by (simp add: add_job_def Let_def)

lemma add_job_Inl:
  "new_job ok now jid ps = Inl e \<Longrightarrow> add_job ok s2f writable now jid ps self = Inl e"
  by (simp add: add_job_def)




subsection \<open>The thumbnail\<close>

lemma new_job_no_image:
  assumes "\<not> present_not_None ps ''input_image''" and "map_of ps ''latent_type'' = None"
  shows "\<exists>job. new_job ok now jid ps = Inr job \<and> thumbnail job = None"
  using assms by (simp add: new_job_def post_init_def Let_def)

lemma new_job_other_image:
  assumes "map_of ps ''input_image'' = Some v" and "v \<noteq> PNone"
    and "\<not> is_ndarray v" and "\<not> is_str v"
  shows "\<exists>job. new_job ok now jid ps = Inr job \<and> thumbnail job = None"
  using assms
  by (cases v) (simp_all add: new_job_def post_init_def Let_def present_not_None_def params_get_def)

text \<open>
  C10. When the params have neither an \<open>input_image\<close> other than \<open>None\<close> nor a key
  \<open>latent_type\<close>, the job that \<open>add_job\<close> creates and stores has no thumbnail; the same
  holds when \<open>input_image\<close> is present, not \<open>None\<close>, and neither a numpy array nor a
  string (whether or not there is a \<open>latent_type\<close>).
\<close>

theorem add_job_thumbnail:
  assumes "(\<not> present_not_None ps ''input_image'' \<and> map_of ps ''latent_type'' = None)
         \<or> (\<exists>v. map_of ps ''input_image'' = Some v \<and> v \<noteq> PNone \<and> \<not> is_ndarray v \<and> \<not> is_str v)"
  shows "\<exists>self' doc job.
           add_job fromarray_ok s2f writable now uuid4 ps self = Inr (uuid4, self', doc)
         \<and> map_of (jobs self') uuid4 = Some job \<and> thumbnail job = None"
proof -
  from assms obtain job where job: "new_job fromarray_ok now uuid4 ps = Inr job"
    and th: "thumbnail job = None"
    using new_job_no_image new_job_other_image by blast
  show ?thesis
    using add_job_Inr[OF job] th by (simp add: update_conv')
qed

text \<open>Params without image and latent type, and params whose image is a number.\<close>

theorem add_job_thumbnail_witness:
  "(\<exists>self' doc job.
      add_job accept_all no_float True 1 ''a'' [(''prompt'', PStr ''a cat'')] init_queue = Inr (''a'', self', doc)
    \<and> map_of (jobs self') ''a'' = Some job \<and> thumbnail job = None)
   \<and> (\<exists>self' doc job.
      add_job accept_all no_float True 1 ''a'' [(''input_image'', PInt 5), (''latent_type'', PStr ''Black'')] init_queue
        = Inr (''a'', self', doc)
    \<and> map_of (jobs self') ''a'' = Some job \<and> thumbnail job = None)"
proof -
  have h1: "(\<not> present_not_None [(''prompt'', PStr ''a cat'')] ''input_image''
              \<and> map_of [(''prompt'', PStr ''a cat'')] ''latent_type'' = None)
         \<or> (\<exists>v. map_of [(''prompt'', PStr ''a cat'')] ''input_image'' = Some v \<and> v \<noteq> PNone
                \<and> \<not> is_ndarray v \<and> \<not> is_str v)"
    by (simp add: present_not_None_def)
  have h2: "(\<not> present_not_None [(''input_image'', PInt 5), (''latent_type'', PStr ''Black'')] ''input_image''
              \<and> map_of [(''input_image'', PInt 5), (''latent_type'', PStr ''Black'')] ''latent_type'' = None)
         \<or> (\<exists>v. map_of [(''input_image'', PInt 5), (''latent_type'', PStr ''Black'')] ''input_image'' = Some v
                \<and> v \<noteq> PNone \<and> \<not> is_ndarray v \<and> \<not> is_str v)"
    by simp
  show ?thesis
    using add_job_thumbnail[OF h1, of accept_all no_float True 1 "''a''" init_queue]
      add_job_thumbnail[OF h2, of accept_all no_float True 1 "''a''" init_queue]
    by blast
qed

subsection \<open>Finalization\<close>

text \<open>
  C7. For a job of the table that the loop finalizes: when its status is still running,
  the \<open>finally\<close> sets it to completed if \<open>job_completed\<close> holds (the drain ended without
  error) and to failed with the error \<open>Job processing was interrupted\<close> if not, and
  records \<open>completed_at\<close>; when the start of the worker routine raised, the inner
  handler followed by the \<open>finally\<close> leaves the running job failed with the text of the
  exception as its error and \<open>completed_at\<close> recorded; a job that is no longer running is
  left as it is by the \<open>finally\<close>. After the \<open>finally\<close>, and after the handler of the outer
  \<open>try\<close>, the processing flag is false and there is no current job, whatever the outcome.
\<close>

theorem finalize_spec:
  assumes "map_of (jobs self) jid = Some job"
  shows "(status job = RUNNING \<longrightarrow>
            map_of (jobs (finalize now True jid self)) jid =
              Some (job\<lparr>status := COMPLETED, completed_at := Some now\<rparr>))
       \<and> (status job = RUNNING \<longrightarrow>
            map_of (jobs (finalize now False jid self)) jid =
              Some (job\<lparr>status := FAILED, error := Some ''Job processing was interrupted'',
                        completed_at := Some now\<rparr>))
       \<and> (status job = RUNNING \<longrightarrow>
            map_of (jobs (finalize now' True jid (handle_error now msg jid self))) jid =
              Some (job\<lparr>status := FAILED, error := Some msg, completed_at := Some now\<rparr>))
       \<and> (status job \<noteq> RUNNING \<longrightarrow>
            map_of (jobs (finalize now job_completed jid self)) jid = Some job)
       \<and> \<not> is_processing (finalize now job_completed jid self)
       \<and> current_job (finalize now job_completed jid self) = None
       \<and> \<not> is_processing (loop_error now msg self)
       \<and> current_job (loop_error now msg self) = None"
  using assms
  by (auto simp: finalize_def finalize_clear_def finalize_job_def handle_error_def loop_error_def
      map_of_modify_job modify_job_other_fields Let_def split: option.splits)

text \<open>The running job of \<open>four_jobs\<close>, finalized in the three ways.\<close>

theorem finalize_witness:
  "job_view ''a'' (finalize 7 True ''a'' (engine four_jobs)) = Some (COMPLETED, 1, Some 7, None)
   \<and> job_view ''a'' (finalize 7 False ''a'' (engine four_jobs))
        = Some (FAILED, 1, Some 7, Some ''Job processing was interrupted'')
   \<and> job_view ''a'' (finalize 8 True ''a'' (handle_error 7 ''boom'' ''a'' (engine four_jobs)))
        = Some (FAILED, 1, Some 7, Some ''boom'')
   \<and> \<not> is_processing (finalize 7 True ''a'' (engine four_jobs))
   \<and> current_job (finalize 7 True ''a'' (engine four_jobs)) = None"
proof -
  obtain ja where ja: "map_of (jobs (engine four_jobs)) ''a'' = Some ja" "status ja = RUNNING"
      "created_at ja = 1" "completed_at ja = None" "error ja = None"
    using job_view_SomeD[OF four_jobs_view(1)] by blast
  show ?thesis
    using finalize_spec[OF ja(1), of 7 7 "''boom''" True] 
          finalize_spec[OF ja(1), of 7 8 "''boom''" True] ja
    by (simp add: job_view_def)
qed

subsection \<open>The serializer\<close>

lemma py_key_eq_PStr [simp]:
  "py_key_eq x (PStr k) \<longleftrightarrow> x = PStr k"
  "py_key_eq (PStr k) x \<longleftrightarrow> x = PStr k"
  by (auto simp: py_key_eq_def split: option.splits)

lemma dict_get_put_str:
  "dict_get (dict_put d (PStr k) v) (PStr k') = (if k = k' then Some v else dict_get d (PStr k'))"
  by (induction d) auto

lemma json_dumps_item [simp]:
  "json_dumps (PDict [(PStr k, v)]) = (if json_serializable v then Inr () else Inl (TypeError ''Object is not JSON serializable''))"
  by (simp add: json_dumps_def)




lemma filter_params_excluded:
  "filter_params ps acc = Inr sp \<Longrightarrow> k \<in> {''input_image'', ''end_frame_image'', ''stream''} \<Longrightarrow>
     dict_get sp (PStr k) = dict_get acc (PStr k)"
proof (induction ps arbitrary: acc)
  case Nil
  then show ?case by simp
next
  case (Cons x ps)
  obtain k0 v0 where x: "x = (k0, v0)" by (cases x)
  show ?case
  proof (cases "k0 \<notin> {''input_image'', ''end_frame_image'', ''stream''} \<and> json_serializable v0")
    case True
    then have "filter_params ps (dict_put acc (PStr k0) v0) = Inr sp"
      using Cons.prems(1) x by simp
    from Cons.IH[OF this Cons.prems(2)] show ?thesis
      using True Cons.prems(2) by (auto simp: dict_get_put_str)
  next
    case False
    then have "filter_params ps acc = Inr sp"
      using Cons.prems(1) x by (auto split: if_splits)
    from Cons.IH[OF this Cons.prems(2)] show ?thesis by auto
  qed
qed

lemma serialize_body_shape:
  assumes "serialize_body s2f job = Inr r"
  shows "\<exists>sp sp'. filter_params (params job) [] = Inr sp
            \<and> r = head_fields job @ [(PStr ''params'', PDict sp')]
            \<and> (sp' = sp \<or> (\<exists>ld. sp' = dict_put sp (PStr ''loras'') (PDict ld)))"
  using assms
  by (auto simp: serialize_body_def Let_def head_fields_def split: sum.splits if_splits)



text \<open>
  C8. When the body of \<open>serialize_job\<close> does not fail, the record has exactly the keys
  \<open>id\<close>, \<open>status\<close>, \<open>created_at\<close>, \<open>started_at\<close>, \<open>completed_at\<close>, \<open>error\<close>, \<open>result\<close>,
  \<open>queue_position\<close>, \<open>generation_type\<close> and \<open>params\<close>, each with the job's value; the params
  projection has no entry under \<open>input_image\<close>, \<open>end_frame_image\<close> or \<open>stream\<close>; and the
  record has no thumbnail: there is no such key, and the record does not depend on the
  job's \<open>thumbnail\<close>, \<open>input_image\<close> and \<open>stream\<close> fields.
\<close>

theorem serialize_job_fields:
  assumes "serialize_body s2f job = Inr r"
  shows "serialize_job s2f job = r
       \<and> map fst r = map PStr [''id'', ''status'', ''created_at'', ''started_at'', ''completed_at'',
                                ''error'', ''result'', ''queue_position'', ''generation_type'', ''params'']
       \<and> dict_get r (PStr ''id'') = Some (PStr (job_id job))
       \<and> dict_get r (PStr ''status'') = Some (PStr (status_value (status job)))
       \<and> dict_get r (PStr ''created_at'') = Some (PFloat (created_at job))
       \<and> dict_get r (PStr ''started_at'') = Some (opt_float (started_at job))
       \<and> dict_get r (PStr ''completed_at'') = Some (opt_float (completed_at job))
       \<and> dict_get r (PStr ''error'') = Some (opt_str (error job))
       \<and> dict_get r (PStr ''result'') = Some (result job)
       \<and> dict_get r (PStr ''queue_position'') = Some (opt_int (queue_position job))
       \<and> dict_get r (PStr ''generation_type'') = Some (generation_type job)
       \<and> (\<exists>sp. dict_get r (PStr ''params'') = Some (PDict sp)
             \<and> dict_get sp (PStr ''input_image'') = None
             \<and> dict_get sp (PStr ''end_frame_image'') = None
             \<and> dict_get sp (PStr ''stream'') = None)
       \<and> (\<forall>t i strm. serialize_job s2f (job\<lparr>thumbnail := t, input_image := i, stream := strm\<rparr>) = r)"
proof -
  from serialize_body_shape[OF assms] obtain sp sp' where
    sp: "filter_params (params job) [] = Inr sp"
    and r: "r = head_fields job @ [(PStr ''params'', PDict sp')]"
    and sp': "sp' = sp \<or> (\<exists>ld. sp' = dict_put sp (PStr ''loras'') (PDict ld))"
    by blast
  have ex: "dict_get sp (PStr ''input_image'') = None"
      "dict_get sp (PStr ''end_frame_image'') = None"
      "dict_get sp (PStr ''stream'') = None"
    using filter_params_excluded[OF sp, of "''input_image''"]
      filter_params_excluded[OF sp, of "''end_frame_image''"]
      filter_params_excluded[OF sp, of "''stream''"]
    by simp_all
  have ex': "dict_get sp' (PStr ''input_image'') = None
             \<and> dict_get sp' (PStr ''end_frame_image'') = None
             \<and> dict_get sp' (PStr ''stream'') = None"
  proof (cases "sp' = sp")
    case True
    then show ?thesis using ex by simp
  next
    case False
    then obtain ld where "sp' = dict_put sp (PStr ''loras'') (PDict ld)"
      using sp' by blast
    then show ?thesis using ex by (simp add: dict_get_put_str)
  qed
  have indep: "serialize_body s2f (job\<lparr>thumbnail := t, input_image := i, stream := strm\<rparr>)
      = serialize_body s2f job" for t i strm
    by (simp add: serialize_body_def Let_def cong: sum.case_cong if_cong)
  have ind: "\<forall>t i strm. serialize_job s2f (job\<lparr>thumbnail := t, input_image := i, stream := strm\<rparr>) = r"
    using assms indep by (simp add: serialize_job_def)
  have own: "serialize_job s2f job = r"
    using assms by (simp add: serialize_job_def)
  have keys: "map fst r = map PStr [''id'', ''status'', ''created_at'', ''started_at'', ''completed_at'',
                                ''error'', ''result'', ''queue_position'', ''generation_type'', ''params'']"
    unfolding r by (simp add: head_fields_def)
  have fields: "dict_get r (PStr ''id'') = Some (PStr (job_id job))"
       "dict_get r (PStr ''status'') = Some (PStr (status_value (status job)))"
       "dict_get r (PStr ''created_at'') = Some (PFloat (created_at job))"
       "dict_get r (PStr ''started_at'') = Some (opt_float (started_at job))"
       "dict_get r (PStr ''completed_at'') = Some (opt_float (completed_at job))"
       "dict_get r (PStr ''error'') = Some (opt_str (error job))"
       "dict_get r (PStr ''result'') = Some (result job)"
       "dict_get r (PStr ''queue_position'') = Some (opt_int (queue_position job))"
       "dict_get r (PStr ''generation_type'') = Some (generation_type job)"
       "dict_get r (PStr ''params'') = Some (PDict sp')"
    unfolding r by (simp_all add: head_fields_def)
  have proj: "\<exists>sp. dict_get r (PStr ''params'') = Some (PDict sp)
             \<and> dict_get sp (PStr ''input_image'') = None
             \<and> dict_get sp (PStr ''end_frame_image'') = None
             \<and> dict_get sp (PStr ''stream'') = None"
    using fields(10) ex' by blast
  show ?thesis
    by (intro conjI own keys fields(1-9) proj ind)
qed

text \<open>The record of a job with the params \<open>lora_params\<close>, which contain an input image.\<close>

theorem serialize_job_fields_witness:
  "map fst (serialize_job no_float (example_job lora_params)) =
      map PStr [''id'', ''status'', ''created_at'', ''started_at'', ''completed_at'',
                ''error'', ''result'', ''queue_position'', ''generation_type'', ''params'']
   \<and> dict_get (serialize_job no_float (example_job lora_params)) (PStr ''id'') = Some (PStr ''a'')
   \<and> dict_get (serialize_job no_float (example_job lora_params)) (PStr ''status'') = Some (PStr ''pending'')
   \<and> dict_get (serialize_job no_float (example_job lora_params)) (PStr ''started_at'') = Some PNone
   \<and> (\<exists>sp. dict_get (serialize_job no_float (example_job lora_params)) (PStr ''params'') = Some (PDict sp)
          \<and> dict_get sp (PStr ''input_image'') = None)"
proof -
  have "\<not> isl (serialize_body no_float (example_job lora_params))"
    by code_simp
  then obtain r where r: "serialize_body no_float (example_job lora_params) = Inr r"
    by (cases "serialize_body no_float (example_job lora_params)") auto
  have own: "serialize_job no_float (example_job lora_params) = r"
    using r by (simp add: serialize_job_def)
  have "\<exists>sp. dict_get r (PStr ''params'') = Some (PDict sp)
          \<and> dict_get sp (PStr ''input_image'') = None"
    using serialize_job_fields[OF r] by blast
  then show ?thesis
    unfolding own using serialize_job_fields[OF r]
    by (simp add: example_job_def opt_float_def)
qed

subsection \<open>The LoRA projection\<close>

lemma py_index_less: "py_index xs v = Inr i \<Longrightarrow> i < length xs"
  by (induction xs arbitrary: i) (auto split: sum.splits if_splits)












subsection \<open>At most one running job\<close>

lemma keys_map_entry: "map fst (AList.map_entry k f xs) = map fst xs"
  by (induction xs) auto

lemma keys_modify_job: "map fst (jobs (modify_job jid f self)) = map fst (jobs self)"
  by (simp add: modify_job_def keys_map_entry)

lemma nre_keep:
  assumes "no_running_except h self" and "\<And>j. status (f j) = RUNNING \<Longrightarrow> status j = RUNNING"
  shows "no_running_except h (modify_job jid f self)"
  using assms unfolding no_running_except_def map_of_modify_job
  by (auto split: if_splits)

lemma nre_claim:
  assumes "no_running_except None self"
  shows "no_running_except (Some jid) (modify_job jid f self)"
  using assms unfolding no_running_except_def map_of_modify_job
  by (auto split: if_splits)

lemma nre_release:
  assumes "no_running_except (Some jid) self" and "\<And>j. status (f j) \<noteq> RUNNING"
  shows "no_running_except None (modify_job jid f self)"
  using assms unfolding no_running_except_def map_of_modify_job
  by (auto split: if_splits)

lemma nre_fields [simp]:
  "no_running_except h (self\<lparr>queue := q\<rparr>) = no_running_except h self"
  "no_running_except h (self\<lparr>current_job := c\<rparr>) = no_running_except h self"
  "no_running_except h (self\<lparr>is_processing := b\<rparr>) = no_running_except h self"
  "no_running_except h (self\<lparr>worker_function := w\<rparr>) = no_running_except h self"
  by (simp_all add: no_running_except_def)

lemma nre_insert:
  assumes "no_running_except h self" and "status job \<noteq> RUNNING"
  shows "no_running_except h (self\<lparr>jobs := AList.update k job (jobs self)\<rparr>)"
  using assms unfolding no_running_except_def by (auto simp: update_conv' split: if_splits)

lemma filter_none:
  "\<forall>(k, j) \<in> set xs. \<not> P j \<Longrightarrow> filter P (map snd xs) = []"
  by (induction xs) auto

lemma filter_at_most_one:
  assumes "distinct (map fst xs)" and "\<forall>(k, j) \<in> set xs. P j \<longrightarrow> k = a"
  shows "length (filter P (map snd xs)) \<le> 1"
  using assms
proof (induction xs)
  case Nil
  then show ?case by simp
next
  case (Cons x xs)
  obtain k j where x: "x = (k, j)" by (cases x)
  show ?case
  proof (cases "P j")
    case True
    then have "k = a" using Cons.prems(2) x by auto
    then have "\<forall>(k', j') \<in> set xs. \<not> P j'"
      using Cons.prems x by force
    then have "filter P (map snd xs) = []" by (rule filter_none)
    then show ?thesis using x by simp
  next
    case False
    then show ?thesis using Cons x by auto
  qed
qed

lemma running_at_most_one:
  assumes "distinct (map fst (jobs self))" and "no_running_except h self"
  shows "length (running_jobs self) \<le> 1"
proof (cases h)
  case None
  then have "\<forall>(k, j) \<in> set (jobs self). \<not> status j = RUNNING"
    using assms by (auto simp: no_running_except_def)
  then show ?thesis unfolding running_jobs_def by (simp add: filter_none)
next
  case (Some a)
  then have "\<forall>(k, j) \<in> set (jobs self). status j = RUNNING \<longrightarrow> k = a"
    using assms by (auto simp: no_running_except_def)
  then show ?thesis unfolding running_jobs_def using assms(1) by (rule filter_at_most_one[rotated])
qed

lemma running_none:
  assumes "distinct (map fst (jobs self))" and "no_running_except None self"
  shows "running_jobs self = []"
proof -
  have "\<forall>(k, j) \<in> set (jobs self). \<not> status j = RUNNING"
    using assms by (auto simp: no_running_except_def)
  then show ?thesis unfolding running_jobs_def by (simp add: filter_none)
qed

lemma single_flight_init: "single_flight init_system"
  by (simp add: single_flight_def init_system_def init_queue_def no_running_except_def)

lemma sf_submit: "single_flight s \<Longrightarrow> single_flight (step ok s2f (Submit now uuid4 ps w) s)"
proof (cases "uuid4 \<in> fst ` set (jobs (engine s))")
  case True
  assume "single_flight s" then show ?thesis using True by simp
next
  case False
  assume sf: "single_flight s"
  show ?thesis
  proof (cases "new_job ok now uuid4 ps")
    case (Inl e)
    then show ?thesis using sf False by (simp add: add_job_def)
  next
    case (Inr job)
    have st: "status job \<noteq> RUNNING" using new_job_fields(3)[OF Inr] by simp
    show ?thesis using sf False st
      by (simp add: add_job_Inr[OF Inr] single_flight_def nre_insert distinct_update)
  qed
qed

lemma sf_cancel: "single_flight s \<Longrightarrow> single_flight (step ok s2f (Cancel now jid) s)"
  by (auto simp: single_flight_def cancel_job_def keys_modify_job modify_job_other_fields
      intro!: nre_keep split: option.splits)

lemma sf_progress: "single_flight s \<Longrightarrow> single_flight (step ok s2f (Progress jid pd) s)"
  by (auto simp: single_flight_def update_job_progress_def keys_modify_job modify_job_other_fields
      intro!: nre_keep)

lemma sf_setworker: "single_flight s \<Longrightarrow> single_flight (step ok s2f SetWorker s)"
  by (auto simp: single_flight_def set_worker_function_def)

lemma sf_get: "single_flight s \<Longrightarrow> single_flight (step ok s2f Get s)"
  by (auto simp: single_flight_def split: worker_pc.splits list.splits)

lemma sf_claim: "single_flight s \<Longrightarrow> single_flight (step ok s2f (Claim now) s)"
  by (auto simp: single_flight_def claim_def keys_modify_job modify_job_other_fields
      intro!: nre_claim split: worker_pc.splits option.splits)

lemma sf_start: "single_flight s \<Longrightarrow> single_flight (step ok s2f (Start r) s)"
  by (auto simp: single_flight_def start_worker_def split: worker_pc.splits async_result.splits)

lemma sf_check: "single_flight s \<Longrightarrow> single_flight (step ok s2f Check s)"
  by (auto simp: single_flight_def check_cancelled_def split: worker_pc.splits option.splits)

lemma sf_read: "single_flight s \<Longrightarrow> single_flight (step ok s2f (Read item) s)"
  by (cases item)
     (auto simp: single_flight_def keys_modify_job modify_job_other_fields
       intro!: nre_keep split: worker_pc.splits)

lemma sf_except: "single_flight s \<Longrightarrow> single_flight (step ok s2f (Except now) s)"
  by (auto simp: single_flight_def handle_error_def keys_modify_job modify_job_other_fields
      intro!: nre_keep split: worker_pc.splits)

lemma nre_finalize_job:
  "no_running_except (Some jid) self \<Longrightarrow> no_running_except None (finalize_job now jc jid self)"
  unfolding finalize_job_def by (rule nre_release) auto

lemma keys_finalize_job: "map fst (jobs (finalize_job t jc jid self)) = map fst (jobs self)"
  by (simp add: finalize_job_def keys_modify_job)

lemma sf_finally: "single_flight s \<Longrightarrow> single_flight (step ok s2f (Finally now) s)"
  by (auto simp: single_flight_def finalize_def finalize_clear_def nre_finalize_job
      keys_finalize_job
      split: worker_pc.splits)

lemma nre_weaken: "no_running_except None self \<Longrightarrow> no_running_except h self"
  by (simp add: no_running_except_def)

lemma loop_error_idle:
  "current_job self = None \<Longrightarrow> loop_error t msg self = self\<lparr>is_processing := False\<rparr>"
  by (simp add: loop_error_def)


lemma fields_finalize_job:
  "current_job (finalize_job t jc jid self) = current_job self"
  "is_processing (finalize_job t jc jid self) = is_processing self"
  by (simp_all add: finalize_job_def modify_job_other_fields)

lemma loop_error_busy:
  assumes "distinct (map fst (jobs self))" and "current_job self = Some jid"
    and "no_running_except (Some jid) self"
  shows "distinct (map fst (jobs (loop_error t msg self)))
       \<and> no_running_except None (loop_error t msg self)
       \<and> current_job (loop_error t msg self) = None
       \<and> \<not> is_processing (loop_error t msg self)"
proof -
  have "no_running_except (Some jid) (self\<lparr>is_processing := False\<rparr>)"
    using assms(3) by simp
  then have "no_running_except None
      (modify_job jid (\<lambda>j. j\<lparr>status := FAILED, error := Some (''Worker loop error: '' @ msg),
                    completed_at := Some t\<rparr>) (self\<lparr>is_processing := False\<rparr>))"
    by (rule nre_release) simp
  then show ?thesis
    using assms
    by (simp add: loop_error_def Let_def keys_modify_job modify_job_other_fields)
qed

lemma sf_fault: "single_flight s \<Longrightarrow> single_flight (step ok s2f (Fault t msg) s)"
proof (cases "worker s")
  case (AtClaim jid)
  assume sf: "single_flight s"
  then show ?thesis using AtClaim
    by (auto simp: single_flight_def split: prod.splits worker_pc.splits)
next
  case (AtExcept jid m)
  assume sf: "single_flight s"
  then show ?thesis using AtExcept
    by (simp add: single_flight_def finalize_def finalize_clear_def keys_finalize_job
        nre_finalize_job)
next
  case (AtFinally jid jc)
  assume sf: "single_flight s"
  then have "no_running_except (Some jid) (finalize_job t jc jid (engine s))"
    using AtFinally nre_finalize_job[of jid "engine s" t jc]
    by (simp add: single_flight_def nre_weaken)
  then show ?thesis using sf AtFinally
    by (simp add: single_flight_def keys_finalize_job fields_finalize_job)
qed simp_all

lemma sf_outer: "single_flight s \<Longrightarrow> single_flight (step ok s2f (Outer now) s)"
proof (cases "worker s")
  case (AtOuter cur msg)
  assume sf: "single_flight s"
  show ?thesis
  proof (cases cur)
    case None
    then show ?thesis using sf AtOuter
      by (simp add: single_flight_def loop_error_idle)
  next
    case (Some jid)
    then show ?thesis
      using sf AtOuter loop_error_busy[of "engine s" jid now msg]
      by (simp add: single_flight_def)
  qed
qed simp_all

lemma single_flight_step: "single_flight s \<Longrightarrow> single_flight (step ok s2f e s)"
  by (cases e)
     (simp_all only: sf_submit sf_cancel sf_progress sf_setworker sf_get sf_claim sf_start
        sf_check sf_read sf_except sf_finally sf_fault sf_outer)

lemma single_flight_run: "single_flight s \<Longrightarrow> single_flight (run ok s2f evs s)"
  by (induction evs arbitrary: s) (simp_all add: single_flight_step)

text \<open>
  C2. In every state that the system reaches from the initial one, by any sequence of
  submissions, cancellations, progress updates and steps of the worker loop, at most one
  job of the table is running, and none is while the processing flag is not set. The
  invariant \<open>single_flight\<close> holds in every such state, and every step preserves it.
\<close>

theorem at_most_one_running:
  "length (running_jobs (engine (run fromarray_ok s2f evs init_system))) \<le> 1
   \<and> (\<not> is_processing (engine (run fromarray_ok s2f evs init_system)) \<longrightarrow>
        running_jobs (engine (run fromarray_ok s2f evs init_system)) = [])
   \<and> single_flight (run fromarray_ok s2f evs init_system)
   \<and> (\<forall>s e. single_flight s \<longrightarrow> single_flight (step fromarray_ok s2f e s))"
proof -
  have sf: "single_flight (run fromarray_ok s2f evs init_system)"
    using single_flight_init by (rule single_flight_run)
  then show ?thesis
    using running_at_most_one running_none single_flight_step
    unfolding single_flight_def by (metis (no_types, lifting))
qed

text \<open>The state \<open>four_jobs\<close>.\<close>

theorem at_most_one_running_witness:
  "length (running_jobs (engine four_jobs)) \<le> 1 \<and> single_flight four_jobs"
  unfolding four_jobs_def
  using at_most_one_running[of accept_all no_float
       "[Submit 1 ''a'' [] True, Submit 2 ''b'' [] True, Submit 3 ''c'' [] True,
        Submit 4 ''d'' [] True, Cancel 5 ''d'', Get, Claim 6]"]
  by blast

subsection \<open>The transitions of the status\<close>

lemma st_modify:
  "job_status (modify_job k f self) jid =
     (if jid = k then map_option (\<lambda>j. status (f j)) (map_of (jobs self) k) else job_status self jid)"
  by (simp add: job_status_def map_of_modify_job option.map_comp comp_def)

lemma st_fields [simp]:
  "job_status (self\<lparr>queue := q\<rparr>) = job_status self"
  "job_status (self\<lparr>current_job := c\<rparr>) = job_status self"
  "job_status (self\<lparr>is_processing := b\<rparr>) = job_status self"
  "job_status (self\<lparr>worker_function := w\<rparr>) = job_status self"
  by (simp_all add: job_status_def fun_eq_iff)

lemma waiting_fields [simp]:
  "waiting (self\<lparr>queue := q\<rparr>) = waiting self"
  "waiting (self\<lparr>current_job := c\<rparr>) = waiting self"
  "waiting (self\<lparr>is_processing := b\<rparr>) = waiting self"
  "waiting (self\<lparr>worker_function := w\<rparr>) = waiting self"
  by (simp_all add: waiting_def fun_eq_iff)

lemma waiting_modify_other: "jid \<noteq> k \<Longrightarrow> waiting (modify_job k f self) jid = waiting self jid"
  by (simp add: waiting_def st_modify)

lemma st_Some_iff: "job_status self jid = Some a \<longleftrightarrow> (\<exists>j. map_of (jobs self) jid = Some j \<and> status j = a)"
  by (auto simp: job_status_def)

lemma st_None_iff: "job_status self jid = None \<longleftrightarrow> map_of (jobs self) jid = None"
  by (simp add: job_status_def)

lemma st_modify_same:
  "(\<And>j. status (f j) = status j) \<Longrightarrow> job_status (modify_job k f self) = job_status self"
  by (auto simp: job_status_def map_of_modify_job fun_eq_iff option.map_comp comp_def)

lemma st_modify_const:
  "(\<And>j. status (f j) = c) \<Longrightarrow>
   job_status (modify_job k f self) jid = (if jid = k \<and> job_status self k \<noteq> None then Some c else job_status self jid)"
  by (cases "map_of (jobs self) k") (auto simp: job_status_def map_of_modify_job)

lemma cancel_job_eq:
  "snd (cancel_job now k self) =
     (if job_status self k = Some PENDING then
        modify_job k (\<lambda>j. j\<lparr>status := CANCELLED, completed_at := Some now\<rparr>) self
      else if job_status self k = Some RUNNING then
        modify_job k (\<lambda>j. j\<lparr>stream := push (PStr ''end'') (stream j),
                      status := CANCELLED, completed_at := Some now\<rparr>) self
      else self)"
  by (cases "map_of (jobs self) k") (auto simp: cancel_job_def job_status_def)

lemma st_cancel:
  "job_status (snd (cancel_job now k self)) jid =
     (if jid = k \<and> (job_status self k = Some PENDING \<or> job_status self k = Some RUNNING) then Some CANCELLED
      else job_status self jid)"
  by (simp add: cancel_job_eq st_modify_const)

lemma queue_cancel [simp]: "queue (snd (cancel_job now k self)) = queue self"
  by (auto simp: cancel_job_def modify_job_other_fields split: option.splits)

lemma waiting_cancel: "waiting self jid \<Longrightarrow> waiting (snd (cancel_job now k self)) jid"
  by (auto simp: waiting_def st_cancel)

lemma active_cancel:
  "\<exists>a \<in> active_status pc. job_status self jid = Some a \<Longrightarrow>
   \<exists>a \<in> active_status pc. job_status (snd (cancel_job now k self)) jid = Some a"
  by (cases pc) (auto simp: st_cancel)

lemma qo_cancel: "queue_ok s \<Longrightarrow> queue_ok (step ok s2f (Cancel now k) s)"
  unfolding queue_ok_def
  using sf_cancel[of s ok s2f now k]
  by (simp add: waiting_cancel active_cancel)

lemma st_progress: "job_status (update_job_progress k pd self) = job_status self"
  unfolding update_job_progress_def by (rule st_modify_same) simp

lemma waiting_st: "job_status self' = job_status self \<Longrightarrow> waiting self' = waiting self"
  by (simp add: waiting_def fun_eq_iff)

lemma qo_progress: "queue_ok s \<Longrightarrow> queue_ok (step ok s2f (Progress k pd) s)"
  unfolding queue_ok_def
  using sf_progress[of s ok s2f k pd]
  by (simp add: waiting_st[OF st_progress] st_progress)
     (simp add: update_job_progress_def modify_job_other_fields)

lemma qo_setworker: "queue_ok s \<Longrightarrow> queue_ok (step ok s2f SetWorker s)"
  unfolding queue_ok_def
  using sf_setworker[of s ok s2f]
  by (simp add: set_worker_function_def)

lemma qo_get: "queue_ok s \<Longrightarrow> queue_ok (step ok s2f Get s)"
  unfolding queue_ok_def
  using sf_get[of s ok s2f]
  by (auto split: worker_pc.splits list.splits)

lemma st_insert:
  "job_status (self\<lparr>jobs := AList.update k job (jobs self)\<rparr>) jid =
     (if jid = k then Some (status job) else job_status self jid)"
  by (simp add: job_status_def update_conv')

lemma qo_submit: "queue_ok s \<Longrightarrow> queue_ok (step ok s2f (Submit now k ps w) s)"
proof (cases "k \<in> fst ` set (jobs (engine s))")
  case True
  assume "queue_ok s" then show ?thesis using True by simp
next
  case False
  assume qo: "queue_ok s"
  have fresh: "job_status (engine s) k = None"
    using False by (simp add: st_None_iff map_of_eq_None_iff)
  show ?thesis
  proof (cases "new_job ok now k ps")
    case (Inl e)
    then show ?thesis using qo False by (simp add: add_job_def)
  next
    case (Inr job)
    have pend: "status job = PENDING" using new_job_fields(3)[OF Inr] .
    have sf: "single_flight (step ok s2f (Submit now k ps w) s)"
      using qo sf_submit by (simp add: queue_ok_def)
    have notq: "k \<notin> set (queue (engine s))"
      using qo fresh by (auto simp: queue_ok_def waiting_def)
    show ?thesis
      using qo sf fresh notq False pend
      unfolding queue_ok_def
      by (auto simp: add_job_Inr[OF Inr] waiting_def st_insert)
  qed
qed

lemma claim_eq:
  "claim now jid self =
     (if job_status self jid = None \<or> job_status self jid = Some CANCELLED then (AtGet, self)
      else if is_processing self then (AtGet, self\<lparr>queue := queue self @ [jid]\<rparr>)
      else (AtStart jid,
            (modify_job jid (\<lambda>j. j\<lparr>status := RUNNING, started_at := Some now\<rparr>) self)
              \<lparr>current_job := Some jid, is_processing := True\<rparr>))"
  by (cases "map_of (jobs self) jid") (auto simp: claim_def job_status_def)

lemma qo_claim: "queue_ok s \<Longrightarrow> queue_ok (step ok s2f (Claim now) s)"
proof (cases "worker s")
  case (AtClaim jid)
  assume qo: "queue_ok s"
  have sf: "single_flight (step ok s2f (Claim now) s)"
    using qo sf_claim by (simp add: queue_ok_def)
  have w: "waiting (engine s) jid" and nq: "jid \<notin> set (queue (engine s))"
    using qo AtClaim by (auto simp: queue_ok_def)
  have other: "\<forall>k \<in> set (queue (engine s)). k \<noteq> jid" using nq by auto
  show ?thesis
    using qo sf AtClaim w nq other
    unfolding queue_ok_def
    by (auto simp: claim_eq waiting_def st_modify_const modify_job_other_fields)
qed (auto simp: queue_ok_def)

lemma qo_start: "queue_ok s \<Longrightarrow> queue_ok (step ok s2f (Start r) s)"
  unfolding queue_ok_def
  using sf_start[of s ok s2f r]
  by (auto simp: start_worker_def split: worker_pc.splits async_result.splits)

lemma qo_check: "queue_ok s \<Longrightarrow> queue_ok (step ok s2f Check s)"
  unfolding queue_ok_def
  using sf_check[of s ok s2f]
  by (auto simp: check_cancelled_def split: worker_pc.splits option.splits)

lemma drain_st: "job_status (snd (drain item jid self)) = job_status self"
  by (cases item) (simp_all add: st_modify_same)

lemma drain_queue: "queue (snd (drain item jid self)) = queue self"
  by (cases item) (simp_all add: modify_job_other_fields)

lemma drain_pc: "in_flight (fst (drain item jid self)) = Some jid"
  by (cases item) simp_all

lemma drain_not_claim: "fst (drain item jid self) \<noteq> AtClaim k"
  by (cases item) simp_all

lemma drain_active: "{RUNNING, CANCELLED} \<subseteq> active_status (fst (drain item jid self))"
  by (cases item) simp_all

lemma qo_read: "queue_ok s \<Longrightarrow> queue_ok (step ok s2f (Read item) s)"
proof (cases "worker s")
  case (AtRead jid)
  assume qo: "queue_ok s"
  have sf: "single_flight (step ok s2f (Read item) s)"
    using qo sf_read by (simp add: queue_ok_def)
  show ?thesis
    using qo sf AtRead
    unfolding queue_ok_def
    using drain_active[of item jid "engine s"]
    by (auto simp: split_beta drain_st drain_queue drain_pc drain_not_claim
        waiting_st[OF drain_st])
qed (auto simp: queue_ok_def)

lemma st_handle_error:
  "job_status (handle_error now msg jid self) k =
     (if k = jid \<and> job_status self jid \<noteq> None then Some FAILED else job_status self k)"
  unfolding handle_error_def by (rule st_modify_const) simp

lemma queue_handle_error [simp]: "queue (handle_error now msg jid self) = queue self"
  by (simp add: handle_error_def modify_job_other_fields)

lemma qo_except: "queue_ok s \<Longrightarrow> queue_ok (step ok s2f (Except now) s)"
proof (cases "worker s")
  case (AtExcept jid msg)
  assume qo: "queue_ok s"
  have sf: "single_flight (step ok s2f (Except now) s)"
    using qo sf_except by (simp add: queue_ok_def)
  have nq: "jid \<notin> set (queue (engine s))"
    using qo AtExcept by (auto simp: queue_ok_def)
  show ?thesis
    using qo sf AtExcept nq
    unfolding queue_ok_def
    by (auto simp: waiting_def st_handle_error)
qed (auto simp: queue_ok_def)

lemma st_finalize_job:
  "job_status (finalize_job now jc jid self) k =
     (if k = jid \<and> job_status self jid = Some RUNNING then Some (if jc then COMPLETED else FAILED)
      else job_status self k)"
  by (cases "map_of (jobs self) jid") (auto simp: finalize_job_def job_status_def map_of_modify_job)

lemma queue_finalize_job [simp]: "queue (finalize_job now jc jid self) = queue self"
  by (simp add: finalize_job_def modify_job_other_fields)

lemma st_finalize: "job_status (finalize now jc jid self) = job_status (finalize_job now jc jid self)"
  by (simp add: finalize_def finalize_clear_def)

lemma queue_finalize [simp]: "queue (finalize now jc jid self) = queue self"
  by (simp add: finalize_def finalize_clear_def)

lemma qo_finally: "queue_ok s \<Longrightarrow> queue_ok (step ok s2f (Finally now) s)"
proof (cases "worker s")
  case (AtFinally jid jc)
  assume qo: "queue_ok s"
  have sf: "single_flight (step ok s2f (Finally now) s)"
    using qo sf_finally by (simp add: queue_ok_def)
  have nq: "jid \<notin> set (queue (engine s))"
    using qo AtFinally by (auto simp: queue_ok_def)
  show ?thesis
    using qo sf AtFinally nq
    unfolding queue_ok_def
    by (auto simp: waiting_def st_finalize st_finalize_job)
qed (auto simp: queue_ok_def)

lemma st_loop_error:
  "job_status (loop_error t msg self) k =
     (if current_job self = Some k \<and> job_status self k \<noteq> None then Some FAILED else job_status self k)"
  by (cases "current_job self") (auto simp: loop_error_def Let_def st_modify_const)

lemma queue_loop_error [simp]: "queue (loop_error t msg self) = queue self"
  by (cases "current_job self") (auto simp: loop_error_def Let_def modify_job_other_fields)

lemma current_finalize: "current_job (finalize t jc jid self) = None"
  by (simp add: finalize_def finalize_clear_def)

lemma qo_fault: "queue_ok s \<Longrightarrow> queue_ok (step ok s2f (Fault t msg) s)"
proof -
  assume qo: "queue_ok s"
  have sf: "single_flight (step ok s2f (Fault t msg) s)"
    using qo sf_fault by (simp add: queue_ok_def)
  show ?thesis
  proof (cases "worker s")
    case (AtClaim jid)
    then show ?thesis
      using qo sf unfolding queue_ok_def
      by (auto split: prod.splits worker_pc.splits)
  next
    case (AtExcept jid m)
    then show ?thesis
      using qo sf unfolding queue_ok_def
      by (auto simp: waiting_def st_finalize st_finalize_job)
  next
    case (AtFinally jid jc)
    then have nq: "jid \<notin> set (queue (engine s))"
      using qo by (auto simp: queue_ok_def)
    show ?thesis
      using qo sf AtFinally nq unfolding queue_ok_def
      by (auto simp: waiting_def st_finalize_job)
  qed (use qo in \<open>auto simp: queue_ok_def\<close>)
qed

lemma qo_outer: "queue_ok s \<Longrightarrow> queue_ok (step ok s2f (Outer now) s)"
proof (cases "worker s")
  case (AtOuter cur msg)
  assume qo: "queue_ok s"
  have sf: "single_flight (step ok s2f (Outer now) s)"
    using qo sf_outer by (simp add: queue_ok_def)
  have cur: "current_job (engine s) = cur"
    using qo AtOuter by (simp add: queue_ok_def single_flight_def)
  show ?thesis
    using qo sf AtOuter cur unfolding queue_ok_def
    by (auto simp: waiting_def st_loop_error)
qed (auto simp: queue_ok_def)

lemma queue_ok_step: "queue_ok s \<Longrightarrow> queue_ok (step ok s2f e s)"
  by (cases e)
     (simp_all only: qo_submit qo_cancel qo_progress qo_setworker qo_get qo_claim qo_start
        qo_check qo_read qo_except qo_finally qo_fault qo_outer)

lemma queue_ok_init: "queue_ok init_system"
  using single_flight_init
  by (simp add: queue_ok_def init_system_def init_queue_def)

lemma queue_ok_run: "queue_ok s \<Longrightarrow> queue_ok (run ok s2f evs s)"
  by (induction evs arbitrary: s) (simp_all add: queue_ok_step)

lemma status_of_st: "status_of jid s = job_status (engine s) jid"
  by (simp add: status_of_def job_status_def)

lemma step_status:
  assumes "queue_ok s" and "job_status (engine s) jid = Some a"
    and "job_status (engine (step ok s2f e s)) jid = Some b"
  shows "a = b \<or> legal_edge a b
       \<or> (handler_step e \<and> (a = CANCELLED \<or> a = COMPLETED) \<and> b = FAILED)"
proof (cases e)
  case (Submit now k ps w)
  show ?thesis
  proof (cases "k \<in> fst ` set (jobs (engine s))")
    case True
    then show ?thesis using assms Submit by simp
  next
    case False
    then have fresh: "job_status (engine s) k = None"
      by (simp add: st_None_iff map_of_eq_None_iff)
    then have "jid \<noteq> k" using assms(2) by auto
    then show ?thesis
      using assms Submit False
      by (cases "new_job ok now k ps") (auto simp: add_job_Inl add_job_Inr st_insert)
  qed
next
  case (Cancel now k)
  then show ?thesis using assms by (auto simp: st_cancel split: if_splits)
next
  case (Progress k pd)
  then show ?thesis using assms by (simp add: st_progress)
next
  case SetWorker
  then show ?thesis using assms by (simp add: set_worker_function_def)
next
  case Get
  then show ?thesis using assms by (auto split: worker_pc.splits list.splits)
next
  case (Claim now)
  show ?thesis
  proof (cases "worker s")
    case (AtClaim k)
    then have "waiting (engine s) k" using assms(1) by (simp add: queue_ok_def)
    then show ?thesis
      using assms Claim AtClaim
      by (auto simp: claim_eq waiting_def st_modify_const split: if_splits)
  qed (use assms Claim in auto)
next
  case (Start r)
  then show ?thesis using assms by (auto split: worker_pc.splits)
next
  case Check
  then show ?thesis using assms by (auto split: worker_pc.splits)
next
  case (Read item)
  then show ?thesis using assms by (auto simp: split_beta drain_st split: worker_pc.splits)
next
  case (Except now)
  show ?thesis
  proof (cases "worker s")
    case (AtExcept k msg)
    then have "job_status (engine s) k = Some RUNNING \<or> job_status (engine s) k = Some CANCELLED"
      using assms(1) by (auto simp: queue_ok_def)
    then show ?thesis
      using assms Except AtExcept by (auto simp: st_handle_error split: if_splits)
  qed (use assms Except in auto)
next
  case (Finally now)
  then show ?thesis
    using assms
    by (auto simp: st_finalize st_finalize_job split: worker_pc.splits if_splits)
next
  case (Fault t msg)
  then show ?thesis
    using assms
    by (auto simp: st_finalize st_finalize_job
        split: worker_pc.splits if_splits prod.splits)
next
  case (Outer now)
  show ?thesis
  proof (cases "worker s")
    case (AtOuter cur msg)
    have c: "current_job (engine s) = cur"
      using assms(1) AtOuter by (simp add: queue_ok_def single_flight_def)
    show ?thesis
    proof (cases cur)
      case None
      then show ?thesis using assms Outer AtOuter c by (simp add: st_loop_error)
    next
      case (Some k)
      then have "job_status (engine s) k = Some COMPLETED \<or> job_status (engine s) k = Some FAILED
          \<or> job_status (engine s) k = Some CANCELLED"
        using assms(1) AtOuter by (auto simp: queue_ok_def)
      then show ?thesis
        using assms Outer AtOuter c Some by (auto simp: st_loop_error split: if_splits)
    qed
  qed (use assms Outer in auto)
qed

lemma step_keeps_jobs:
  "job_status (engine s) jid \<noteq> None \<Longrightarrow> job_status (engine (step ok s2f e s)) jid \<noteq> None"
proof (cases e)
  case (Submit now k ps w)
  assume "job_status (engine s) jid \<noteq> None"
  then show ?thesis
    using Submit
    by (cases "new_job ok now k ps") (auto simp: add_job_Inl add_job_Inr st_insert)
next
  case (Cancel now k)
  assume "job_status (engine s) jid \<noteq> None"
  then show ?thesis using Cancel by (auto simp: st_cancel)
next
  case (Claim now)
  assume "job_status (engine s) jid \<noteq> None"
  then show ?thesis using Claim
    by (auto simp: claim_eq st_modify_const split: worker_pc.splits)
next
  case (Read item)
  assume "job_status (engine s) jid \<noteq> None"
  then show ?thesis using Read by (auto simp: split_beta drain_st split: worker_pc.splits)
next
  case (Except now)
  assume "job_status (engine s) jid \<noteq> None"
  then show ?thesis using Except by (auto simp: st_handle_error split: worker_pc.splits)
next
  case (Finally now)
  assume "job_status (engine s) jid \<noteq> None"
  then show ?thesis using Finally
    by (auto simp: st_finalize st_finalize_job split: worker_pc.splits)
next
  case (Fault t msg)
  assume "job_status (engine s) jid \<noteq> None"
  then show ?thesis using Fault
    by (auto simp: st_finalize st_finalize_job
        split: worker_pc.splits prod.splits)
next
  case (Outer now)
  assume "job_status (engine s) jid \<noteq> None"
  then show ?thesis using Outer
    by (auto simp: st_loop_error split: worker_pc.splits)
qed (auto simp: st_progress set_worker_function_def split: worker_pc.splits list.splits)

text \<open>
  What the steps do to the status of a job, in every state that the system reaches: a
  step leaves the status as it is or moves it along an edge of the state machine, with
  one exception: the two handlers of the worker loop (the \<open>except\<close> of the inner and of the
  outer \<open>try\<close>) set the job in flight to failed also when it is already cancelled or
  completed.
\<close>

lemma status_moves_along_edges:
  assumes "status_of jid (run ok s2f evs init_system) = Some a"
    and "status_of jid (step ok s2f e (run ok s2f evs init_system)) = Some b"
  shows "a = b \<or> legal_edge a b
       \<or> (handler_step e \<and> (a = CANCELLED \<or> a = COMPLETED) \<and> b = FAILED)"
  using step_status[OF queue_ok_run[OF queue_ok_init]] assms
  unfolding status_of_st by blast

text \<open>
  C1 does not hold of the code, by the exception above. The worker function is not set;
  a job is submitted and claimed by the worker (running), then cancelled by a caller
  (cancelled); the start of the routine raises, and the handler of the inner \<open>try\<close> sets
  the status to failed without the test of the status that the \<open>finally\<close> makes:
  cancelled becomes failed.
\<close>

theorem cancelled_job_fails:
  "status_of ''a'' (run accept_all no_float
       [Submit 1 ''a'' [] True, Get, Claim 2, Cancel 3 ''a''] init_system) = Some CANCELLED
   \<and> status_of ''a'' (run accept_all no_float
       [Submit 1 ''a'' [] True, Get, Claim 2, Cancel 3 ''a'', Start Started, Except 4] init_system)
      = Some FAILED"
  by code_simp

text \<open>
  The other exception, for a completed job: the routine ends, the \<open>finally\<close> sets the job
  to completed and its \<open>print\<close> raises, and the outer handler sets the job to failed.
\<close>

lemma completed_job_fails:
  "status_of ''a'' (run accept_all no_float
       [SetWorker, Submit 1 ''a'' [] True, Get, Claim 2, Start Started, Check, Read EndItem,
        Fault 3 ''closed file''] init_system) = Some COMPLETED
   \<and> status_of ''a'' (run accept_all no_float
       [SetWorker, Submit 1 ''a'' [] True, Get, Claim 2, Start Started, Check, Read EndItem,
        Fault 3 ''closed file'', Outer 4] init_system) = Some FAILED"
  by code_simp

end
